theory Spec2Isabelle
  imports Main "HOL-Library.Word"
begin

section \<open>JavaScript strings\<close>

text \<open>
  A JavaScript string is a sequence of UTF-16 code units; \<open>length\<close>, \<open>substring\<close>,
  \<open>split\<close>, \<open>trim\<close> and a regular expression without the \<open>u\<close> flag all work on
  code units. The string literals of the sources are ASCII (the bullet U+2022 apart) and
  are written through \<open>lit\<close>.
\<close>

type_synonym ustring = "16 word list"

definition lit :: "string \<Rightarrow> ustring" where
  "lit s = map (\<lambda>c. word_of_nat (of_char c)) s"

abbreviation LF :: "16 word" where "LF \<equiv> 0x0A"
abbreviation qmark :: "16 word" where "qmark \<equiv> 0x3F"

text \<open>
  ECMAScript WhiteSpace and LineTerminator: what \<open>String.prototype.trim\<close> strips and
  what \<open>\s\<close> matches (TAB, LF, VT, FF, CR, SP, NBSP, the Unicode space separators,
  LS, PS and the byte order mark).
\<close>

definition isWhiteSpace :: "16 word \<Rightarrow> bool" where
  "isWhiteSpace c \<longleftrightarrow>
     c = 0x09 \<or> c = 0x0A \<or> c = 0x0B \<or> c = 0x0C \<or> c = 0x0D \<or> c = 0x20 \<or> c = 0xA0
     \<or> c = 0x1680 \<or> (0x2000 \<le> c \<and> c \<le> 0x200A) \<or> c = 0x2028 \<or> c = 0x2029
     \<or> c = 0x202F \<or> c = 0x205F \<or> c = 0x3000 \<or> c = 0xFEFF"

text \<open>\<open>\d\<close>: the ten ASCII digits.\<close>

definition isDigit :: "16 word \<Rightarrow> bool" where
  "isDigit c \<longleftrightarrow> 0x30 \<le> c \<and> c \<le> 0x39"

text \<open>\<open>s.trim()\<close>\<close>

definition trim :: "ustring \<Rightarrow> ustring" where
  "trim s = rev (dropWhile isWhiteSpace (rev (dropWhile isWhiteSpace s)))"

text \<open>
  \<open>s.split(sep)\<close> for a separator of one code unit: the pieces between the
  separators, empty pieces included; the empty string gives one empty piece.
\<close>

fun split_str :: "16 word \<Rightarrow> ustring \<Rightarrow> ustring list" where
  "split_str sep [] = [[]]"
| "split_str sep (c # cs) =
     (if c = sep then [] # split_str sep cs
      else (case split_str sep cs of
              [] \<Rightarrow> [[c]]
            | p # ps \<Rightarrow> (c # p) # ps))"

text \<open>\<open>s.includes('?')\<close>\<close>

definition includes_str :: "ustring \<Rightarrow> 16 word \<Rightarrow> bool" where
  "includes_str s c \<longleftrightarrow> c \<in> set s"

text \<open>
  \<open>xs.slice(0, k)\<close> for an integral \<open>k\<close>: a negative end counts from the end of the
  array, and the end is clamped to the array.
\<close>

definition slice0 :: "'a list \<Rightarrow> int \<Rightarrow> 'a list" where
  "slice0 xs k = (if k < 0 then take (nat (int (length xs) + k)) xs else take (nat k) xs)"

section \<open>The question parser\<close>

text \<open>
  The regular expression \<open>\d+[\.\)]\s*\<close> tried at the start of \<open>s\<close>: a non-empty
  maximal run of digits, one of \<open>.\<close> and \<open>)\<close>, then all the white space that follows.
  The result is the matched text and the rest of the string. (Giving back digits cannot
  make the match succeed: the code unit after a shorter run is a digit.)
\<close>

definition matchMarker :: "ustring \<Rightarrow> (ustring \<times> ustring) option" where
  "matchMarker s =
     (let ds = takeWhile isDigit s; r = dropWhile isDigit s in
      if ds = [] then None
      else (case r of
              [] \<Rightarrow> None
            | m # r' \<Rightarrow>
                if m = 0x2E \<or> m = 0x29
                then Some (ds @ [m] @ takeWhile isWhiteSpace r', dropWhile isWhiteSpace r')
                else None))"

text \<open>
  \<open>text.replace(/(\d+[\.\)]\s*)/g, '\n$1')\<close>: the scan tries the expression at every
  index from the left; a match is replaced by a line feed followed by the match itself and
  the scan goes on after the match; where there is no match the code unit is kept.
\<close>

function normalise :: "ustring \<Rightarrow> ustring" where
  "normalise [] = []"
| "normalise (c # cs) =
     (case matchMarker (c # cs) of
        Some (m, rest) \<Rightarrow> LF # m @ normalise rest
      | None \<Rightarrow> c # normalise cs)"
  by pat_completeness auto
termination
proof (relation "measure length", goal_cases)
  case 1
  show ?case by simp
next
  case (2 c cs)
  show ?case by simp
next
  case (3 c cs mr m rest)
  then obtain d r' where r: "dropWhile isDigit (c # cs) = d # r'"
    and rest: "rest = dropWhile isWhiteSpace r'"
    by (auto simp: matchMarker_def Let_def split: if_splits list.splits)
  have "length (dropWhile isDigit (c # cs)) \<le> length (c # cs)"
    by (rule length_dropWhile_le)
  moreover have "length rest \<le> length r'"
    unfolding rest by (rule length_dropWhile_le)
  ultimately show ?case using r by simp
qed

text \<open>
  The segments: each line is split on \<open>?\<close>, the parts are trimmed, the empty ones are
  dropped and a \<open>?\<close> is put at the end of each.
\<close>

definition lineSegments :: "ustring \<Rightarrow> ustring list" where
  "lineSegments line =
     map (\<lambda>part. part @ [qmark])
       (filter (\<lambda>part. length part > 0) (map trim (split_str qmark line)))"

definition segments :: "ustring \<Rightarrow> ustring list" where
  "segments normalised = concat (map lineSegments (split_str LF normalised))"

text \<open>\<open>segment.replace(/^\d+[\.\)]\s*/, '')\<close>\<close>

definition stripNumbering :: "ustring \<Rightarrow> ustring" where
  "stripNumbering s = (case matchMarker s of Some (m, rest) \<Rightarrow> rest | None \<Rightarrow> s)"

text \<open>\<open>cleaned.replace(/^[\-\*\<bullet>]\s*/, '')\<close>, the bullet being U+2022.\<close>

definition stripBullet :: "ustring \<Rightarrow> ustring" where
  "stripBullet s =
     (case s of
        [] \<Rightarrow> []
      | c # cs \<Rightarrow>
          if c = 0x2D \<or> c = 0x2A \<or> c = 0x2022 then dropWhile isWhiteSpace cs else s)"

definition cleanSegment :: "ustring \<Rightarrow> ustring" where
  "cleanSegment segment = trim (stripBullet (stripNumbering segment))"

definition keepQuestion :: "ustring \<Rightarrow> bool" where
  "keepQuestion q \<longleftrightarrow> length q > 5 \<and> includes_str q qmark"

text \<open>
  The repository has two copies of \<open>generate-questions-from-text-tool.ts\<close>; they differ
  in \<open>parseQuestionsFromText\<close> only. This is the parser of the copy that normalises the
  numbered items first (the second file of \<open>unnamed/part_002\<close>, lines 175 to 202).
\<close>

definition parseQuestionsFromText :: "ustring \<Rightarrow> int \<Rightarrow> ustring list" where
  "parseQuestionsFromText text maxQuestions =
     (let normalised = normalise text;
          segs = segments normalised;
          questions = slice0 (filter keepQuestion (map cleanSegment segs)) maxQuestions
      in questions)"

text \<open>
  The parser of the copy at \<open>src/mastra/tools/generate-questions-from-text-tool.ts\<close>
  (lines 99 to 120), the file the workflow imports. It works line by line: it keeps the
  non-empty trimmed lines that contain a \<open>?\<close> or start with a numbered marker
  (\<open>line.match(/^\d+[\.\)]/)\<close>), cleans them and keeps those longer than 5.
\<close>

definition parseQuestionsFromText_byLine :: "ustring \<Rightarrow> int \<Rightarrow> ustring list" where
  "parseQuestionsFromText_byLine text maxQuestions =
     (let lines = filter (\<lambda>line. includes_str line qmark \<or> matchMarker line \<noteq> None)
                    (filter (\<lambda>line. length line > 0) (map trim (split_str LF text)));
          questions = slice0 (filter (\<lambda>q. length q > 5) (map cleanSegment lines)) maxQuestions
      in questions)"

section \<open>Exceptions, agents and the completion service\<close>

text \<open>
  A thrown value is an \<open>Error\<close> with its message, or some other value; the handlers read
  \<open>error instanceof Error ? error.message : 'Unknown error'\<close>. A computation that may
  throw returns \<open>thrown + 'a\<close>, with \<open>Inl\<close> for the exception.
\<close>

datatype thrown = Error ustring | OtherValue

definition errorMessage :: "thrown \<Rightarrow> ustring" where
  "errorMessage error = (case error of Error message \<Rightarrow> message | OtherValue \<Rightarrow> lit ''Unknown error'')"

record message =
  role :: ustring
  content :: ustring

text \<open>
  The text stream of a completion: chunks (a chunk may be missing or empty), then the end
  of the stream or an exception raised while it is read.
\<close>

datatype textStream = EndOfStream | Chunk "ustring option" textStream | StreamFails thrown

text \<open>
  An agent answers \<open>stream(messages)\<close> with a text stream and \<open>generate(messages)\<close> with
  a result whose \<open>text\<close> may be missing; both may throw. \<open>getAgent(name)\<close> gives an
  agent, nothing, or throws.
\<close>

record agent =
  stream :: "message list \<Rightarrow> thrown + textStream"
  generate :: "message list \<Rightarrow> thrown + ustring option"

type_synonym mastra = "ustring \<Rightarrow> thrown + agent option"

text \<open>\<open>mastra?.getAgent(name)\<close>\<close>

definition getAgent :: "mastra option \<Rightarrow> ustring \<Rightarrow> thrown + agent option" where
  "getAgent mastra name = (case mastra of None \<Rightarrow> Inr None | Some m \<Rightarrow> m name)"

text \<open>
  The decimal text of an integer, as a template literal prints a number (integers of
  magnitude below \<open>10^21\<close>).
\<close>

fun digitsOfNat :: "nat \<Rightarrow> ustring" where
  "digitsOfNat n =
     (if n < 10 then [0x30 + word_of_nat n]
      else digitsOfNat (n div 10) @ [0x30 + word_of_nat (n mod 10)])"

declare digitsOfNat.simps [simp del]

definition numberToString :: "int \<Rightarrow> ustring" where
  "numberToString k = (if k < 0 then 0x2D # digitsOfNat (nat (- k)) else digitsOfNat (nat k))"

section \<open>The question-generation tool\<close>

record step_output =
  questions :: "ustring list"
  success :: bool

record tool_output = step_output +
  questionCount :: nat

record tool_context =
  extractedText :: ustring
  maxQuestions :: "int option"

definition MAX_TEXT_LENGTH :: nat where
  "MAX_TEXT_LENGTH = 4000"

definition noQuestions :: tool_output where
  "noQuestions = \<lparr>questions = [], success = False, questionCount = 0\<rparr>"

text \<open>
  The message sent to the agent: the template literal up to the interpolated text, then
  \<open>extractedText.substring(0, MAX_TEXT_LENGTH)\<close>, which is \<open>take\<close>.
\<close>

definition questionPromptHeader :: "int \<Rightarrow> ustring" where
  "questionPromptHeader k =
     lit ''Generate comprehensive questions based on the following content extracted from a PDF.\<newline>''
     @ lit ''Please create questions that test understanding, analysis, and application of the content.\<newline>''
     @ lit ''Generate up to '' @ numberToString k @ lit '' questions:\<newline>\<newline>''"

definition questionRequest :: "ustring \<Rightarrow> int \<Rightarrow> message list" where
  "questionRequest text k =
     [\<lparr>role = lit ''user'',
       content = questionPromptHeader k @ take MAX_TEXT_LENGTH text\<rparr>]"

text \<open>\<open>for await (const chunk of textStream) generatedContent += chunk || ''\<close>\<close>

fun drain :: "ustring \<Rightarrow> textStream \<Rightarrow> thrown + ustring" where
  "drain generatedContent EndOfStream = Inr generatedContent"
| "drain generatedContent (Chunk chunk rest) =
     drain (generatedContent @ (case chunk of None \<Rightarrow> [] | Some c \<Rightarrow> c)) rest"
| "drain generatedContent (StreamFails error) = Inl error"

text \<open>
  The body of the \<open>try\<close> block of \<open>execute\<close>, here in the copy of
  \<open>unnamed/part_002\<close>. The first component is the list of the requests sent to the
  completion service, the second the value returned or the exception.
\<close>

definition executeTry :: "ustring \<Rightarrow> int \<Rightarrow> mastra option \<Rightarrow> message list list \<times> (thrown + tool_output)" where
  "executeTry text k mastra =
     (case getAgent mastra (lit ''textQuestionAgent'') of
        Inl error \<Rightarrow> ([], Inl error)
      | Inr None \<Rightarrow> ([], Inl (Error (lit ''Question generator agent not found'')))
      | Inr (Some agent) \<Rightarrow>
          (let request = questionRequest text k in
           case stream agent request of
             Inl error \<Rightarrow> ([request], Inl error)
           | Inr textStream \<Rightarrow>
               (case drain [] textStream of
                  Inl error \<Rightarrow> ([request], Inl error)
                | Inr generatedContent \<Rightarrow>
                    if length (trim generatedContent) > 20
                    then (let qs = parseQuestionsFromText generatedContent k in
                          ([request],
                           Inr \<lparr>questions = qs, success = True, questionCount = length qs\<rparr>))
                    else ([request], Inr noQuestions))))"

text \<open>
  \<open>generateQuestionsFromTextTool.execute\<close>: the default of \<open>maxQuestions\<close>, the check
  of the input text, the \<open>try\<close> block and its \<open>catch\<close>, which logs and returns the
  empty result.
\<close>

definition generateQuestionsFromTextTool ::
  "tool_context \<Rightarrow> mastra option \<Rightarrow> message list list \<times> (thrown + tool_output)" where
  "generateQuestionsFromTextTool context mastra =
     (let text = extractedText context;
          k = (case maxQuestions context of None \<Rightarrow> 10 | Some n \<Rightarrow> n) in
      if text = [] \<or> trim text = [] then ([], Inr noQuestions)
      else (case executeTry text k mastra of
              (sent, Inl error) \<Rightarrow> (sent, Inr noQuestions)
            | (sent, Inr result) \<Rightarrow> (sent, Inr result)))"

text \<open>
  The tool of the copy at \<open>src/mastra/tools/generate-questions-from-text-tool.ts\<close>:
  \<open>execute\<close> is the same text, line for line, and calls the line-by-line parser.
\<close>

definition executeTry_byLine :: "ustring \<Rightarrow> int \<Rightarrow> mastra option \<Rightarrow> message list list \<times> (thrown + tool_output)" where
  "executeTry_byLine text k mastra =
     (case getAgent mastra (lit ''textQuestionAgent'') of
        Inl error \<Rightarrow> ([], Inl error)
      | Inr None \<Rightarrow> ([], Inl (Error (lit ''Question generator agent not found'')))
      | Inr (Some agent) \<Rightarrow>
          (let request = questionRequest text k in
           case stream agent request of
             Inl error \<Rightarrow> ([request], Inl error)
           | Inr textStream \<Rightarrow>
               (case drain [] textStream of
                  Inl error \<Rightarrow> ([request], Inl error)
                | Inr generatedContent \<Rightarrow>
                    if length (trim generatedContent) > 20
                    then (let qs = parseQuestionsFromText_byLine generatedContent k in
                          ([request],
                           Inr \<lparr>questions = qs, success = True, questionCount = length qs\<rparr>))
                    else ([request], Inr noQuestions))))"

definition generateQuestionsFromTextTool_byLine ::
  "tool_context \<Rightarrow> mastra option \<Rightarrow> message list list \<times> (thrown + tool_output)" where
  "generateQuestionsFromTextTool_byLine context mastra =
     (let text = extractedText context;
          k = (case maxQuestions context of None \<Rightarrow> 10 | Some n \<Rightarrow> n) in
      if text = [] \<or> trim text = [] then ([], Inr noQuestions)
      else (case executeTry_byLine text k mastra of
              (sent, Inl error) \<Rightarrow> (sent, Inr noQuestions)
            | (sent, Inr result) \<Rightarrow> (sent, Inr result)))"

section \<open>The workflow step that generates the questions\<close>

text \<open>
  \<open>generateQuestionsFromSummaryStep.execute\<close>: an empty summary gives the empty result;
  the tool is called with the summary and no \<open>maxQuestions\<close> inside a \<open>try\<close> whose
  \<open>catch\<close> gives the empty result too.
\<close>

definition generateQuestionsFromSummaryStep ::
  "ustring \<Rightarrow> mastra option \<Rightarrow> message list list \<times> (thrown + step_output)" where
  "generateQuestionsFromSummaryStep summary mastra =
     (if summary = [] then ([], Inr \<lparr>questions = [], success = False\<rparr>)
      else (case generateQuestionsFromTextTool \<lparr>extractedText = summary, maxQuestions = None\<rparr> mastra of
              (sent, Inl error) \<Rightarrow> (sent, Inr \<lparr>questions = [], success = False\<rparr>)
            | (sent, Inr result) \<Rightarrow>
                (sent, Inr \<lparr>questions = questions result, success = success result\<rparr>)))"

text \<open>
  The same step over the tool of the copy at \<open>src/mastra/tools\<close>, the path the workflow
  file names in its import.
\<close>

definition generateQuestionsFromSummaryStep_byLine ::
  "ustring \<Rightarrow> mastra option \<Rightarrow> message list list \<times> (thrown + step_output)" where
  "generateQuestionsFromSummaryStep_byLine summary mastra =
     (if summary = [] then ([], Inr \<lparr>questions = [], success = False\<rparr>)
      else (case generateQuestionsFromTextTool_byLine
                   \<lparr>extractedText = summary, maxQuestions = None\<rparr> mastra of
              (sent, Inl error) \<Rightarrow> (sent, Inr \<lparr>questions = [], success = False\<rparr>)
            | (sent, Inr result) \<Rightarrow>
                (sent, Inr \<lparr>questions = questions result, success = success result\<rparr>)))"

section \<open>The text extractor\<close>

text \<open>
  What the PDF parser hands to the \<open>pdfParser_dataReady\<close> handler: pages of text items
  of text runs, every level of which may be missing. The parser and \<open>decodeURIComponent\<close>
  are parameters; the parser is taken to emit one of its two events for a buffer.
\<close>

record textRun =
  T :: "ustring option"

record textItem =
  R :: "textRun list option"

record page =
  Texts :: "textItem list option"

record pdfData =
  Pages :: "page list option"

record parserErrorData =
  parserError :: "ustring option"
  message :: "ustring option"

datatype parserEvent = DataReady "pdfData option" | DataError parserErrorData

type_synonym pdfParser = "8 word list \<Rightarrow> parserEvent"

type_synonym uriDecoder = "ustring \<Rightarrow> thrown + ustring"

record extraction =
  extractedText :: ustring
  pagesCount :: nat

text \<open>The three nested loops; an empty or missing \<open>T\<close> is skipped.\<close>

fun runsLoop :: "uriDecoder \<Rightarrow> ustring \<Rightarrow> textRun list \<Rightarrow> thrown + ustring" where
  "runsLoop decodeURIComponent acc [] = Inr acc"
| "runsLoop decodeURIComponent acc (textRun # rest) =
     (case T textRun of
        None \<Rightarrow> runsLoop decodeURIComponent acc rest
      | Some t \<Rightarrow>
          if t = [] then runsLoop decodeURIComponent acc rest
          else (case decodeURIComponent t of
                  Inl error \<Rightarrow> Inl error
                | Inr decodedText \<Rightarrow>
                    runsLoop decodeURIComponent (acc @ decodedText @ lit '' '') rest))"

fun textsLoop :: "uriDecoder \<Rightarrow> ustring \<Rightarrow> textItem list \<Rightarrow> thrown + ustring" where
  "textsLoop decodeURIComponent acc [] = Inr acc"
| "textsLoop decodeURIComponent acc (textItem # rest) =
     (case R textItem of
        None \<Rightarrow> textsLoop decodeURIComponent acc rest
      | Some runs \<Rightarrow>
          (case runsLoop decodeURIComponent acc runs of
             Inl error \<Rightarrow> Inl error
           | Inr acc' \<Rightarrow> textsLoop decodeURIComponent acc' rest))"

fun pagesLoop :: "uriDecoder \<Rightarrow> ustring \<Rightarrow> page list \<Rightarrow> thrown + ustring" where
  "pagesLoop decodeURIComponent acc [] = Inr acc"
| "pagesLoop decodeURIComponent acc (page # rest) =
     (case (case Texts page of
              None \<Rightarrow> Inr acc
            | Some items \<Rightarrow> textsLoop decodeURIComponent acc items) of
        Inl error \<Rightarrow> Inl error
      | Inr acc' \<Rightarrow> pagesLoop decodeURIComponent (acc' @ lit ''\<newline>\<newline>'') rest)"

text \<open>
  The \<open>pdfParser_dataReady\<close> handler. The text and the page count it collects, or the
  exception raised on the way:
\<close>

definition collectText :: "uriDecoder \<Rightarrow> pdfData option \<Rightarrow> thrown + ustring \<times> nat" where
  "collectText decodeURIComponent data =
     (case data of
        None \<Rightarrow> Inr ([], 0)
      | Some d \<Rightarrow>
          (case Pages d of
             None \<Rightarrow> Inr ([], 0)
           | Some pages \<Rightarrow>
               (case pagesLoop decodeURIComponent [] pages of
                  Inl error \<Rightarrow> Inl error
                | Inr text \<Rightarrow> Inr (text, length pages))))"

text \<open>
  then the trimming and the check for an empty text (a rejection, not a throw); an
  exception of the loops is caught and rejected as \<open>Text extraction failed: ...\<close>.
\<close>

definition dataReady :: "uriDecoder \<Rightarrow> pdfData option \<Rightarrow> thrown + extraction" where
  "dataReady decodeURIComponent data =
     (case collectText decodeURIComponent data of
        Inl error \<Rightarrow> Inl (Error (lit ''Text extraction failed: '' @ errorMessage error))
      | Inr (text, pageCount) \<Rightarrow>
          (let trimmed = trim text in
           if trimmed = [] then Inl (Error (lit ''No text could be extracted from the PDF''))
           else Inr \<lparr>extractedText = trimmed, pagesCount = pageCount\<rparr>))"

text \<open>
  The \<open>pdfParser_dataError\<close> handler:
  \<open>error.parserError || error.message || 'Unknown error'\<close>.
\<close>

definition dataError :: "parserErrorData \<Rightarrow> thrown" where
  "dataError error =
     Error (lit ''PDF parsing failed: '' @
       (case parserError error of
          Some e \<Rightarrow> if e \<noteq> [] then e else
            (case message error of
               Some m \<Rightarrow> if m \<noteq> [] then m else lit ''Unknown error''
             | None \<Rightarrow> lit ''Unknown error'')
        | None \<Rightarrow>
            (case message error of
               Some m \<Rightarrow> if m \<noteq> [] then m else lit ''Unknown error''
             | None \<Rightarrow> lit ''Unknown error'')))"

text \<open>
  \<open>extractTextFromPDF\<close>. The buffer may be missing. The first component of the result
  is the list of the buffers handed to \<open>parseBuffer\<close>, the second the value the promise
  resolves to or the error it is rejected with.
\<close>

definition extractTextFromPDF ::
  "pdfParser \<Rightarrow> uriDecoder \<Rightarrow> 8 word list option \<Rightarrow> 8 word list list \<times> (thrown + extraction)" where
  "extractTextFromPDF pdfParser decodeURIComponent pdfBuffer =
     (case pdfBuffer of
        None \<Rightarrow> ([], Inl (Error (lit ''Invalid PDF file: empty buffer'')))
      | Some buffer \<Rightarrow>
          if length buffer = 0 then ([], Inl (Error (lit ''Invalid PDF file: empty buffer'')))
          else ([buffer],
                case pdfParser buffer of
                  DataReady data \<Rightarrow> dataReady decodeURIComponent data
                | DataError error \<Rightarrow> Inl (dataError error)))"

section \<open>The download-and-summarize tool\<close>

record response =
  ok :: bool
  status :: nat
  statusText :: ustring
  arrayBuffer :: "thrown + 8 word list"

type_synonym fetcher = "ustring \<Rightarrow> thrown + response"

record pdf_summary =
  summary :: ustring
  fileSize :: nat
  pagesCount :: nat
  characterCount :: nat

definition summaryRequest :: "ustring \<Rightarrow> message list" where
  "summaryRequest text =
     [\<lparr>role = lit ''user'',
       content = lit ''Please provide a comprehensive summary of this PDF content:\<newline>\<newline>'' @ text\<rparr>]"

text \<open>The body of the \<open>try\<close> block of \<open>pdfFetcherTool.execute\<close>.\<close>

definition pdfFetcherTry ::
  "fetcher \<Rightarrow> pdfParser \<Rightarrow> uriDecoder \<Rightarrow> ustring \<Rightarrow> mastra option \<Rightarrow> thrown + pdf_summary" where
  "pdfFetcherTry fetch pdfParser decodeURIComponent pdfUrl mastra =
     (case fetch pdfUrl of
        Inl error \<Rightarrow> Inl error
      | Inr response \<Rightarrow>
          if \<not> ok response
          then Inl (Error (lit ''Failed to download PDF: '' @ numberToString (int (status response))
                           @ lit '' '' @ statusText response))
          else
            (case arrayBuffer response of
               Inl error \<Rightarrow> Inl error
             | Inr pdfBuffer \<Rightarrow>
                 (case snd (extractTextFromPDF pdfParser decodeURIComponent (Some pdfBuffer)) of
                    Inl error \<Rightarrow> Inl error
                  | Inr extractionResult \<Rightarrow>
                      if extraction.extractedText extractionResult = []
                         \<or> trim (extraction.extractedText extractionResult) = []
                      then Inl (Error (lit ''No text could be extracted from the PDF''))
                      else
                        (case getAgent mastra (lit ''pdfSummarizationAgent'') of
                           Inl error \<Rightarrow> Inl error
                         | Inr None \<Rightarrow> Inl (Error (lit ''PDF summarization agent not found''))
                         | Inr (Some pdfSummarizationAgent) \<Rightarrow>
                             (case generate pdfSummarizationAgent
                                     (summaryRequest (extraction.extractedText extractionResult)) of
                                Inl error \<Rightarrow> Inl error
                              | Inr summaryResultText \<Rightarrow>
                                  (let summary =
                                     (case summaryResultText of
                                        None \<Rightarrow> lit ''Summary could not be generated''
                                      | Some t \<Rightarrow>
                                          if t \<noteq> [] then t
                                          else lit ''Summary could not be generated'')
                                   in Inr \<lparr>summary = summary,
                                           fileSize = length pdfBuffer,
                                           pagesCount = extraction.pagesCount extractionResult,
                                           characterCount =
                                             length (extraction.extractedText extractionResult)\<rparr>))))))"

text \<open>\<open>pdfFetcherTool.execute\<close>: the \<open>catch\<close> rethrows with the stage named.\<close>

definition pdfFetcherTool ::
  "fetcher \<Rightarrow> pdfParser \<Rightarrow> uriDecoder \<Rightarrow> ustring \<Rightarrow> mastra option \<Rightarrow> thrown + pdf_summary" where
  "pdfFetcherTool fetch pdfParser decodeURIComponent pdfUrl mastra =
     (case pdfFetcherTry fetch pdfParser decodeURIComponent pdfUrl mastra of
        Inl error \<Rightarrow> Inl (Error (lit ''Failed to process PDF from URL: '' @ errorMessage error))
      | Inr result \<Rightarrow> Inr result)"

section \<open>Concrete environments\<close>

text \<open>
  Small instances of the external services, for the theorems below to be applied to:
  agents with a fixed answer, a registry with one agent or none, a server with one
  document, parsers with a fixed result, and a decoder for text without escapes.
\<close>

definition replyingAgent :: "ustring \<Rightarrow> agent" where
  "replyingAgent reply =
     \<lparr>stream = (\<lambda>messages. Inr (Chunk (Some reply) EndOfStream)),
      generate = (\<lambda>messages. Inr (Some reply))\<rparr>"

definition silentAgent :: agent where
  "silentAgent =
     \<lparr>stream = (\<lambda>messages. Inr EndOfStream),
      generate = (\<lambda>messages. Inr None)\<rparr>"

definition failingAgent :: "thrown \<Rightarrow> agent" where
  "failingAgent error =
     \<lparr>stream = (\<lambda>messages. Inl error),
      generate = (\<lambda>messages. Inl error)\<rparr>"

definition mastraWith :: "agent \<Rightarrow> mastra" where
  "mastraWith a = (\<lambda>name. Inr (Some a))"


definition okFetch :: "8 word list \<Rightarrow> fetcher" where
  "okFetch body =
     (\<lambda>url. Inr \<lparr>ok = True, status = 200, statusText = lit ''OK'', arrayBuffer = Inr body\<rparr>)"

definition onePagePdf :: "ustring \<Rightarrow> pdfParser" where
  "onePagePdf t =
     (\<lambda>buffer. DataReady (Some \<lparr>Pages = Some [\<lparr>Texts = Some [\<lparr>R = Some [\<lparr>T = Some t\<rparr>]\<rparr>]\<rparr>]\<rparr>))"

definition blankPagesPdf :: pdfParser where
  "blankPagesPdf =
     (\<lambda>buffer. DataReady (Some \<lparr>Pages = Some [\<lparr>Texts = None\<rparr>, \<lparr>Texts = Some [\<lparr>R = Some []\<rparr>]\<rparr>]\<rparr>))"

definition plainDecoder :: uriDecoder where
  "plainDecoder = (\<lambda>t. Inr t)"

section \<open>Properties of the question parser\<close>

lemmas parser_defs = parseQuestionsFromText_def matchMarker_def isDigit_def isWhiteSpace_def
  segments_def lineSegments_def trim_def cleanSegment_def stripNumbering_def stripBullet_def
  keepQuestion_def includes_str_def slice0_def lit_def

subsection \<open>The question mark at the end of a segment survives the cleaning\<close>

lemma qmark_plain [simp]:
  "\<not> isWhiteSpace qmark" "\<not> isDigit qmark"
  by (simp_all add: isWhiteSpace_def isDigit_def)

lemma trim_Nil [simp]: "trim [] = []"
  by (simp add: trim_def)

lemma trim_snoc_qmark: "trim (p @ [qmark]) = dropWhile isWhiteSpace p @ [qmark]"
  by (simp add: trim_def dropWhile_append3)

lemma matchMarker_snoc_qmark:
  assumes "matchMarker (p @ [qmark]) = Some (m, rest)"
  shows "\<exists>p'. rest = p' @ [qmark]"
proof -
  have d: "dropWhile isDigit (p @ [qmark]) = dropWhile isDigit p @ [qmark]"
    by (simp add: dropWhile_append3)
  show ?thesis
  proof (cases "dropWhile isDigit p")
    case Nil
    with assms d show ?thesis
      by (simp add: matchMarker_def Let_def split: if_splits)
  next
    case (Cons c r)
    with assms d have "rest = dropWhile isWhiteSpace (r @ [qmark])"
      by (simp add: matchMarker_def Let_def split: if_splits)
    then have "rest = dropWhile isWhiteSpace r @ [qmark]"
      by (simp add: dropWhile_append3)
    then show ?thesis by blast
  qed
qed

lemma stripNumbering_snoc_qmark: "\<exists>p'. stripNumbering (p @ [qmark]) = p' @ [qmark]"
proof (cases "matchMarker (p @ [qmark])")
  case None
  then show ?thesis by (simp add: stripNumbering_def)
next
  case (Some mr)
  obtain m rest where mr: "mr = (m, rest)" by (cases mr)
  from Some mr matchMarker_snoc_qmark [of p m rest] show ?thesis
    by (auto simp: stripNumbering_def)
qed

lemma stripBullet_snoc_qmark: "\<exists>p'. stripBullet (p @ [qmark]) = p' @ [qmark]"
proof (cases p)
  case Nil
  then show ?thesis by (simp add: stripBullet_def)
next
  case (Cons c cs)
  then show ?thesis by (simp add: stripBullet_def dropWhile_append3)
qed

lemma cleanSegment_snoc_qmark: "\<exists>p'. cleanSegment (p @ [qmark]) = p' @ [qmark]"
proof -
  obtain p1 where 1: "stripNumbering (p @ [qmark]) = p1 @ [qmark]"
    using stripNumbering_snoc_qmark by blast
  obtain p2 where 2: "stripBullet (p1 @ [qmark]) = p2 @ [qmark]"
    using stripBullet_snoc_qmark by blast
  show ?thesis by (simp add: cleanSegment_def 1 2 trim_snoc_qmark)
qed

lemma segments_snoc_qmark:
  "s \<in> set (segments n) \<Longrightarrow> \<exists>p. s = p @ [qmark]"
  by (auto simp: segments_def lineSegments_def)

subsection \<open>Trimming twice is trimming once\<close>

lemma trim_idem: "trim (trim s) = trim s"
proof -
  define t where "t = dropWhile isWhiteSpace s"
  define u where "u = dropWhile isWhiteSpace (rev t)"
  have t: "t = [] \<or> \<not> isWhiteSpace (hd t)"
    unfolding t_def using hd_dropWhile [of isWhiteSpace s] by blast
  have u: "u = [] \<or> \<not> isWhiteSpace (hd u)"
    unfolding u_def using hd_dropWhile [of isWhiteSpace "rev t"] by blast
  have lu: "last u = hd t" if "u \<noteq> []"
  proof -
    from that obtain x where x: "x \<in> set (rev t)" "\<not> isWhiteSpace x"
      unfolding u_def by auto
    then have "last u = last (rev t)"
      unfolding u_def by (rule dropWhile_last)
    moreover from x(1) have "t \<noteq> []" by auto
    ultimately show ?thesis by (simp add: last_rev)
  qed
  have "dropWhile isWhiteSpace (rev u) = rev u"
  proof (cases "u = []")
    case True
    then show ?thesis by simp
  next
    case False
    with lu have l: "last u = hd t" by simp
    from False have "t \<noteq> []" unfolding u_def by auto
    with t have "\<not> isWhiteSpace (hd t)" by simp
    with l False show ?thesis
      by (simp add: dropWhile_eq_self_iff hd_rev)
  qed
  moreover have "dropWhile isWhiteSpace u = u"
    using u by (simp add: dropWhile_eq_self_iff)
  ultimately have "trim (rev u) = rev u"
    by (simp add: trim_def)
  moreover have "trim s = rev u"
    by (simp add: trim_def u_def t_def)
  ultimately show ?thesis by simp
qed

subsection \<open>The output is a prefix of the kept segments\<close>

lemma slice0_take: "\<exists>n. slice0 xs k = take n xs"
  by (auto simp: slice0_def)

lemma set_slice0: "set (slice0 xs k) \<subseteq> set xs"
  by (auto simp: slice0_def dest: in_set_takeD)

lemma parse_member:
  assumes "q \<in> set (parseQuestionsFromText raw k)"
  shows "\<exists>s \<in> set (segments (normalise raw)). q = cleanSegment s \<and> keepQuestion q"
  using assms set_slice0 [of "filter keepQuestion (map cleanSegment (segments (normalise raw)))" k]
  by (auto simp: parseQuestionsFromText_def)

lemma filter_take_position:
  assumes "i < length xs" "P (xs ! i)"
  shows "length (filter P (take i xs)) < length (filter P xs)"
    and "filter P xs ! length (filter P (take i xs)) = xs ! i"
proof -
  from assms(1) have "xs = take i xs @ xs ! i # drop (Suc i) xs"
    by (rule id_take_nth_drop)
  then have "filter P xs = filter P (take i xs @ xs ! i # drop (Suc i) xs)"
    by simp
  with assms(2) have f: "filter P xs = filter P (take i xs) @ xs ! i # filter P (drop (Suc i) xs)"
    by simp
  have "length (filter P xs) =
          length (filter P (take i xs)) + Suc (length (filter P (drop (Suc i) xs)))"
    by (subst f) simp
  then show "length (filter P (take i xs)) < length (filter P xs)"
    by simp
  show "filter P xs ! length (filter P (take i xs)) = xs ! i"
    by (subst f) simp
qed

lemma filter_take_mono:
  assumes "i < j" "j \<le> length xs" "P (xs ! i)"
  shows "length (filter P (take i xs)) < length (filter P (take j xs))"
proof -
  from assms have "i < length (take j xs)" "P (take j xs ! i)" by simp_all
  then have "length (filter P (take i (take j xs))) < length (filter P (take j xs))"
    by (rule filter_take_position(1))
  moreover from assms(1) have "take i (take j xs) = take i xs" by (simp add: min_def)
  ultimately show ?thesis by simp
qed

subsection \<open>Normalisation puts a line feed before a marker anywhere in the text\<close>

lemma digit_not_space: "isDigit c \<Longrightarrow> \<not> isWhiteSpace c"
proof
  assume d: "isDigit c" and w: "isWhiteSpace c"
  from d have le: "c \<le> 0x39" and ge: "0x30 \<le> c" by (simp_all add: isDigit_def)
  have "\<not> (0x2000 \<le> c)"
  proof
    assume "0x2000 \<le> c"
    then have "(0x2000 :: 16 word) \<le> 0x39" using le by (rule order_trans)
    then show False by simp
  qed
  with w ge le show False
    by (auto simp: isWhiteSpace_def)
qed

lemma matchMarker_Nil [simp]: "matchMarker [] = None"
  by (simp add: matchMarker_def)

lemma matchMarker_starts_with_digit:
  "matchMarker s = Some (m, rest) \<Longrightarrow> s \<noteq> [] \<and> isDigit (hd s)"
  by (cases s) (auto simp: matchMarker_def Let_def split: if_splits)

lemma matchMarker_split:
  assumes "matchMarker s = Some (m, rest)"
  shows "s = m @ rest"
proof -
  from assms obtain c r' where r: "dropWhile isDigit s = c # r'"
    and m: "m = takeWhile isDigit s @ [c] @ takeWhile isWhiteSpace r'"
    and rest: "rest = dropWhile isWhiteSpace r'"
    by (auto simp: matchMarker_def Let_def split: if_splits list.splits)
  have "s = takeWhile isDigit s @ dropWhile isDigit s" by simp
  also have "\<dots> = takeWhile isDigit s @ c # (takeWhile isWhiteSpace r' @ dropWhile isWhiteSpace r')"
    by (simp add: r)
  finally show ?thesis by (simp add: m rest)
qed

lemma matchMarker_append:
  assumes pre: "pre \<noteq> []" "\<not> isDigit (last pre)" and s: "s \<noteq> []" "isDigit (hd s)"
  shows "matchMarker (pre @ s) = map_option (\<lambda>(m, rest). (m, rest @ s)) (matchMarker pre)"
proof -
  have nd: "last pre \<in> set pre" using pre(1) by simp
  have t: "takeWhile isDigit (pre @ s) = takeWhile isDigit pre"
    using nd pre(2) by (rule takeWhile_append1)
  have d: "dropWhile isDigit (pre @ s) = dropWhile isDigit pre @ s"
    using nd pre(2) by (rule dropWhile_append1)
  have dne: "dropWhile isDigit pre \<noteq> []"
    using nd pre(2) by auto
  have ws: "\<not> isWhiteSpace (hd s)"
    using s(2) by (rule digit_not_space)
  have tw: "takeWhile isWhiteSpace (r @ s) = takeWhile isWhiteSpace r" for r
    using s(1) ws by (induct r) (auto simp: takeWhile_eq_Nil_iff)
  have dw: "dropWhile isWhiteSpace (r @ s) = dropWhile isWhiteSpace r @ s" for r
    using s(1) ws by (induct r) (auto simp: dropWhile_eq_self_iff)
  obtain c r where cr: "dropWhile isDigit pre = c # r"
    using dne by (cases "dropWhile isDigit pre") auto
  show ?thesis
    by (simp add: matchMarker_def Let_def t d cr tw dw)
qed

lemma normalise_append:
  "(pre = [] \<or> \<not> isDigit (last pre)) \<Longrightarrow> s \<noteq> [] \<Longrightarrow> isDigit (hd s) \<Longrightarrow>
   normalise (pre @ s) = normalise pre @ normalise s"
proof (induction pre rule: normalise.induct)
  case 1
  then show ?case by simp
next
  case (2 c cs)
  from "2.prems" have last: "\<not> isDigit (last (c # cs))" by simp
  have mm: "matchMarker ((c # cs) @ s) =
              map_option (\<lambda>(m, rest). (m, rest @ s)) (matchMarker (c # cs))"
    using last "2.prems"(2,3) by (intro matchMarker_append) simp_all
  show ?case
  proof (cases "matchMarker (c # cs)")
    case None
    have "cs = [] \<or> \<not> isDigit (last cs)" using last by (cases cs) simp_all
    with None "2.IH"(1) "2.prems"(2,3) have "normalise (cs @ s) = normalise cs @ normalise s"
      by simp
    with None mm show ?thesis by simp
  next
    case (Some mr)
    obtain m rest where mr: "mr = (m, rest)" by (cases mr)
    from Some mr have eq: "c # cs = m @ rest" by (simp add: matchMarker_split)
    have "rest = [] \<or> \<not> isDigit (last rest)"
    proof (cases "rest = []")
      case True
      then show ?thesis by simp
    next
      case False
      then have "last rest = last (c # cs)" unfolding eq by simp
      with last show ?thesis by simp
    qed
    with Some mr "2.IH"(2) "2.prems"(2,3)
    have "normalise (rest @ s) = normalise rest @ normalise s" by simp
    with Some mr mm show ?thesis by simp
  qed
qed

lemma normalise_marker_mid_text:
  assumes "pre = [] \<or> \<not> isDigit (last pre)" "matchMarker s = Some (m, rest)"
  shows "normalise (pre @ s) = normalise pre @ LF # m @ normalise rest"
proof -
  from assms(2) have s: "s \<noteq> []" "isDigit (hd s)"
    using matchMarker_starts_with_digit by blast+
  then obtain c cs where "s = c # cs" by (cases s) auto
  with assms(2) have "normalise s = LF # m @ normalise rest" by simp
  with normalise_append [OF assms(1) s] show ?thesis by simp
qed

subsection \<open>A marker in the middle of the text starts a new question\<close>

lemma split_str_not_Nil [simp]: "split_str sep s \<noteq> []"
  by (induction s) (auto split: list.splits)

lemma split_str_append_sep:
  "split_str sep (a @ sep # b) = split_str sep a @ split_str sep b"
proof (induction a)
  case Nil
  show ?case by simp
next
  case (Cons c a)
  obtain p ps where ps: "split_str sep a = p # ps"
    by (cases "split_str sep a") simp_all
  with Cons show ?case by simp
qed

lemma split_str_no_sep: "sep \<notin> set s \<Longrightarrow> split_str sep s = [s]"
  by (induction s) auto

lemma segments_Nil [simp]: "segments [] = []"
  by (simp add: segments_def lineSegments_def)

lemma segments_append_LF: "segments (a @ LF # b) = segments a @ segments b"
  by (simp add: segments_def split_str_append_sep)

lemma segments_LF: "segments (LF # b) = segments b"
  using segments_append_LF [of "[]" b] by simp

lemma take_take_append: "take n (take n xs @ take n ys) = take n (xs @ ys)"
  by (cases "n \<le> length xs") (simp_all add: min_def)

lemma parse_nonneg:
  "0 \<le> k \<Longrightarrow> parseQuestionsFromText raw k
     = take (nat k) (filter keepQuestion (map cleanSegment (segments (normalise raw))))"
  by (simp add: parseQuestionsFromText_def slice0_def)

lemma parse_marker_mid_text:
  assumes "0 \<le> k" "pre = [] \<or> \<not> isDigit (last pre)" "matchMarker s = Some (m, rest)"
  shows "parseQuestionsFromText (pre @ s) k
           = take (nat k) (parseQuestionsFromText pre k @ parseQuestionsFromText s k)"
proof -
  have "normalise ([] @ s) = normalise [] @ LF # m @ normalise rest"
    using assms(3) by (intro normalise_marker_mid_text) simp_all
  then have s: "segments (normalise s) = segments (m @ normalise rest)"
    by (simp add: segments_LF)
  have "segments (normalise (pre @ s)) = segments (normalise pre @ LF # (m @ normalise rest))"
    using normalise_marker_mid_text [OF assms(2,3)] by simp
  then have "segments (normalise (pre @ s)) = segments (normalise pre) @ segments (normalise s)"
    by (simp only: segments_append_LF s)
  then have K: "filter keepQuestion (map cleanSegment (segments (normalise (pre @ s))))
              = filter keepQuestion (map cleanSegment (segments (normalise pre)))
                @ filter keepQuestion (map cleanSegment (segments (normalise s)))"
    by simp
  show ?thesis
    unfolding parse_nonneg [OF assms(1)] K by (rule take_take_append [symmetric])
qed

subsection \<open>The line-by-line parser\<close>

lemma length_slice0: "length (slice0 xs k) \<le> length xs"
proof -
  obtain n where "slice0 xs k = take n xs" using slice0_take by blast
  then show ?thesis by simp
qed

lemma byLine_one_line:
  assumes "LF \<notin> set raw"
  shows "length (parseQuestionsFromText_byLine raw k) \<le> 1"
proof -
  let ?lines = "filter (\<lambda>line. includes_str line qmark \<or> matchMarker line \<noteq> None)
                    (filter (\<lambda>line. length line > 0) (map trim (split_str LF raw)))"
  have "length ?lines \<le> 1"
    using assms by (simp add: split_str_no_sep)
  moreover have "length (filter (\<lambda>q. length q > 5) (map cleanSegment ?lines)) \<le> length ?lines"
    using length_filter_le [of "\<lambda>q. length q > 5" "map cleanSegment ?lines"] by simp
  ultimately have "length (slice0 (filter (\<lambda>q. length q > 5) (map cleanSegment ?lines)) k) \<le> 1"
    using length_slice0 [of "filter (\<lambda>q. length q > 5) (map cleanSegment ?lines)" k] by linarith
  then show ?thesis by (simp add: parseQuestionsFromText_byLine_def)
qed

lemma byLine_member:
  assumes "q \<in> set (parseQuestionsFromText_byLine raw k)"
  shows "5 < length (trim q)
         \<and> (\<exists>line \<in> set (map trim (split_str LF raw)).
               (includes_str line qmark \<or> matchMarker line \<noteq> None) \<and> q = cleanSegment line)"
proof -
  let ?lines = "filter (\<lambda>line. includes_str line qmark \<or> matchMarker line \<noteq> None)
                    (filter (\<lambda>line. length line > 0) (map trim (split_str LF raw)))"
  from assms have "q \<in> set (filter (\<lambda>q. length q > 5) (map cleanSegment ?lines))"
    using set_slice0 [of "filter (\<lambda>q. length q > 5) (map cleanSegment ?lines)" k]
    by (auto simp: parseQuestionsFromText_byLine_def)
  then obtain line where l: "line \<in> set ?lines" and q: "q = cleanSegment line" and n: "5 < length q"
    by auto
  have "trim q = q" unfolding q cleanSegment_def by (rule trim_idem)
  with l q n show ?thesis by auto
qed

lemma byLine_three_questions:
  "parseQuestionsFromText_byLine (lit ''1. What is X? 2. What is Y? 3. What is Z?'') 10
     = [lit ''What is X? 2. What is Y? 3. What is Z?'']"
  by (simp add: parseQuestionsFromText_byLine_def parser_defs)

lemma byLine_numbered_line_without_question_mark:
  "parseQuestionsFromText_byLine (lit ''1. Introduction'') 10 = [lit ''Introduction'']"
  by (simp add: parseQuestionsFromText_byLine_def parser_defs)

lemma byLine_no_question_marks:
  "parseQuestionsFromText_byLine (lit ''This document has no question marks at all.'') 10 = []"
  by (simp add: parseQuestionsFromText_byLine_def parser_defs)

lemma no_question_marks_is_one_segment:
  "parseQuestionsFromText (lit ''This document has no question marks at all.'') 10
     = [lit ''This document has no question marks at all.?'']"
  by (simp add: parser_defs)

lemma byLine_bound:
  "0 \<le> k \<Longrightarrow> length (parseQuestionsFromText_byLine raw k) \<le> nat k"
  by (simp add: parseQuestionsFromText_byLine_def slice0_def)

subsection \<open>The parser on three numbered questions on one line\<close>

lemma normalise_three_questions:
  "normalise (lit ''1. What is X? 2. What is Y? 3. What is Z?'')
     = lit ''\<newline>1. What is X? \<newline>2. What is Y? \<newline>3. What is Z?''"
  by (simp add: matchMarker_def isDigit_def isWhiteSpace_def lit_def)

lemma cleaned_three_questions:
  "map cleanSegment (segments (normalise (lit ''1. What is X? 2. What is Y? 3. What is Z?'')))
     = [lit ''What is X?'', lit ''What is Y?'', lit ''What is Z?'']"
  by (simp add: parser_defs)

lemma keep_three_questions:
  "keepQuestion (lit ''What is X?'')" "keepQuestion (lit ''What is Y?'')"
  "keepQuestion (lit ''What is Z?'')"
  by (simp_all add: keepQuestion_def includes_str_def lit_def)

lemma parse_three_questions:
  "0 \<le> k \<Longrightarrow> parseQuestionsFromText (lit ''1. What is X? 2. What is Y? 3. What is Z?'') k
     = take (nat k) [lit ''What is X?'', lit ''What is Y?'', lit ''What is Z?'']"
  by (simp add: parseQuestionsFromText_def cleaned_three_questions keep_three_questions slice0_def)

lemma parse_two_items_rparen:
  "parseQuestionsFromText (lit ''1) Explain X. 2) What is Y?'') 10
     = [lit ''Explain X.?'', lit ''What is Y?'']"
  by (simp add: parser_defs)

text \<open>
  Claim C2, as stated, fails on the line-by-line copy of the parser, which has no
  normalisation step: it keeps the one line as one element.
\<close>

theorem byLine_keeps_one_line_as_one_question:
  "parseQuestionsFromText_byLine (lit ''1. What is X? 2. What is Y? 3. What is Z?'') 10
     = [lit ''What is X? 2. What is Y? 3. What is Z?'']
   \<and> parseQuestionsFromText_byLine (lit ''1. What is X? 2. What is Y? 3. What is Z?'') 10
       \<noteq> [lit ''What is X?'', lit ''What is Y?'', lit ''What is Z?'']"
proof -
  have "lit ''What is X? 2. What is Y? 3. What is Z?'' \<noteq> lit ''What is X?''"
    by (simp add: lit_def)
  then show ?thesis by (simp add: byLine_three_questions)
qed

text \<open>
  Claim C2, amended. The parser of the \<open>part_002\<close> copy first puts a line break
  immediately before every numbered-list marker (digits, then \<open>.\<close> or \<open>)\<close>, then
  optional white space), wherever the marker is in the raw text: a marker that starts the
  text \<open>s\<close> gets its line feed after any text \<open>pre\<close> that does not end in a digit (a
  digit there would belong to the marker), and the questions of \<open>pre\<close> and those of
  \<open>s\<close> are then parsed apart. So the one line \<open>1. What is X? 2. What is Y? 3. What is Z?\<close>
  is normalised to three lines and, with \<open>maxQuestions = 10\<close>, parsed to exactly the three
  questions, and \<open>1) Explain X. 2) What is Y?\<close> is parsed to \<open>Explain X.?\<close> and
  \<open>What is Y?\<close>. The line-by-line copy has no such step: it returns at most one element
  for a text without line breaks, and the single element
  \<open>What is X? 2. What is Y? 3. What is Z?\<close> for the one line above.
\<close>

theorem numbered_items_are_split_mid_line:
  "(\<forall>pre s m rest.
      (pre = [] \<or> \<not> isDigit (last pre)) \<longrightarrow> matchMarker s = Some (m, rest) \<longrightarrow>
      normalise (pre @ s) = normalise pre @ LF # m @ normalise rest)
   \<and> (\<forall>pre s m rest k.
      0 \<le> k \<longrightarrow> (pre = [] \<or> \<not> isDigit (last pre)) \<longrightarrow> matchMarker s = Some (m, rest) \<longrightarrow>
      parseQuestionsFromText (pre @ s) k
        = take (nat k) (parseQuestionsFromText pre k @ parseQuestionsFromText s k))
   \<and> normalise (lit ''1. What is X? 2. What is Y? 3. What is Z?'')
       = lit ''\<newline>1. What is X? \<newline>2. What is Y? \<newline>3. What is Z?''
   \<and> parseQuestionsFromText (lit ''1. What is X? 2. What is Y? 3. What is Z?'') 10
       = [lit ''What is X?'', lit ''What is Y?'', lit ''What is Z?'']
   \<and> parseQuestionsFromText (lit ''1) Explain X. 2) What is Y?'') 10
       = [lit ''Explain X.?'', lit ''What is Y?'']
   \<and> (\<forall>raw k. LF \<notin> set raw \<longrightarrow> length (parseQuestionsFromText_byLine raw k) \<le> 1)
   \<and> parseQuestionsFromText_byLine (lit ''1. What is X? 2. What is Y? 3. What is Z?'') 10
       = [lit ''What is X? 2. What is Y? 3. What is Z?'']"
proof (intro conjI allI impI)
  fix pre s m rest
  assume "pre = [] \<or> \<not> isDigit (last pre)" "matchMarker s = Some (m, rest)"
  then show "normalise (pre @ s) = normalise pre @ LF # m @ normalise rest"
    by (rule normalise_marker_mid_text)
next
  fix pre s m rest and k :: int
  assume "0 \<le> k" "pre = [] \<or> \<not> isDigit (last pre)" "matchMarker s = Some (m, rest)"
  then show "parseQuestionsFromText (pre @ s) k
        = take (nat k) (parseQuestionsFromText pre k @ parseQuestionsFromText s k)"
    by (rule parse_marker_mid_text)
next
  show "normalise (lit ''1. What is X? 2. What is Y? 3. What is Z?'')
          = lit ''\<newline>1. What is X? \<newline>2. What is Y? \<newline>3. What is Z?''"
    by (rule normalise_three_questions)
next
  show "parseQuestionsFromText (lit ''1. What is X? 2. What is Y? 3. What is Z?'') 10
          = [lit ''What is X?'', lit ''What is Y?'', lit ''What is Z?'']"
    by (simp add: parse_three_questions)
next
  show "parseQuestionsFromText (lit ''1) Explain X. 2) What is Y?'') 10
          = [lit ''Explain X.?'', lit ''What is Y?'']"
    by (rule parse_two_items_rparen)
next
  fix raw and k :: int
  assume "LF \<notin> set raw"
  then show "length (parseQuestionsFromText_byLine raw k) \<le> 1"
    by (rule byLine_one_line)
next
  show "parseQuestionsFromText_byLine (lit ''1. What is X? 2. What is Y? 3. What is Z?'') 10
          = [lit ''What is X? 2. What is Y? 3. What is Z?'']"
    by (rule byLine_three_questions)
qed

theorem numbered_items_are_split_mid_line_witness:
  "(0::int) \<le> 10
   \<and> (lit ''1) Explain X. '' = [] \<or> \<not> isDigit (last (lit ''1) Explain X. '')))
   \<and> matchMarker (lit ''2) What is Y?'') = Some (lit ''2) '', lit ''What is Y?'')
   \<and> normalise (lit ''1) Explain X. '' @ lit ''2) What is Y?'')
       = normalise (lit ''1) Explain X. '') @ LF # lit ''2) '' @ normalise (lit ''What is Y?'')
   \<and> parseQuestionsFromText (lit ''1) Explain X. '') 10 = [lit ''Explain X.?'']
   \<and> parseQuestionsFromText (lit ''2) What is Y?'') 10 = [lit ''What is Y?'']
   \<and> parseQuestionsFromText (lit ''1) Explain X. '' @ lit ''2) What is Y?'') 10
       = [lit ''Explain X.?'', lit ''What is Y?'']
   \<and> LF \<notin> set (lit ''1. What is X? 2. What is Y? 3. What is Z?'')
   \<and> length (parseQuestionsFromText_byLine (lit ''1. What is X? 2. What is Y? 3. What is Z?'') 10) \<le> 1"
proof -
  let ?pre = "lit ''1) Explain X. ''" and ?s = "lit ''2) What is Y?''"
  have h0: "(0::int) \<le> 10" by simp
  have h1: "?pre = [] \<or> \<not> isDigit (last ?pre)"
    by (simp add: lit_def isDigit_def)
  have h2: "matchMarker ?s = Some (lit ''2) '', lit ''What is Y?'')"
    by (simp add: matchMarker_def isDigit_def isWhiteSpace_def lit_def)
  have p1: "parseQuestionsFromText ?pre 10 = [lit ''Explain X.?'']"
    by (simp add: parser_defs)
  have p2: "parseQuestionsFromText ?s 10 = [lit ''What is Y?'']"
    by (simp add: parser_defs)
  have h3: "LF \<notin> set (lit ''1. What is X? 2. What is Y? 3. What is Z?'')"
    by (simp add: lit_def)
  note th = numbered_items_are_split_mid_line
  from th h1 h2
  have a: "normalise (?pre @ ?s) = normalise ?pre @ LF # lit ''2) '' @ normalise (lit ''What is Y?'')"
    by blast
  from th h0 h1 h2
  have "parseQuestionsFromText (?pre @ ?s) 10
          = take (nat 10) (parseQuestionsFromText ?pre 10 @ parseQuestionsFromText ?s 10)"
    by blast
  then have b: "parseQuestionsFromText (?pre @ ?s) 10 = [lit ''Explain X.?'', lit ''What is Y?'']"
    by (simp add: p1 p2)
  from th h3
  have c: "length (parseQuestionsFromText_byLine (lit ''1. What is X? 2. What is Y? 3. What is Z?'') 10) \<le> 1"
    by blast
  from h0 h1 h2 a p1 p2 b h3 c show ?thesis by blast
qed

text \<open>
  Claim C3, as stated, fails on the line-by-line copy of the parser, which admits a
  numbered line without a question mark.
\<close>

theorem byLine_keeps_item_without_question_mark:
  "parseQuestionsFromText_byLine (lit ''1. Introduction'') 10 = [lit ''Introduction'']
   \<and> last (lit ''Introduction'') \<noteq> qmark"
  by (simp add: byLine_numbered_line_without_question_mark) (simp add: lit_def)

text \<open>
  Claim C3, amended. For every input string and every \<open>maxQuestions\<close>, each element of
  the list the parser returns has length greater than 5 after trimming. In the
  \<open>part_002\<close> copy each element also ends with the character \<open>?\<close>. In the line-by-line
  copy each element is the cleaned form of a trimmed line that contains a \<open>?\<close> or starts
  with a numbered-list marker, and it need not end with \<open>?\<close>: \<open>1. Introduction\<close> gives
  \<open>Introduction\<close>.
\<close>

theorem parsed_questions_are_well_formed:
  "(q \<in> set (parseQuestionsFromText raw k) \<longrightarrow>
      q \<noteq> [] \<and> last q = qmark \<and> 5 < length (trim q))
   \<and> (q \<in> set (parseQuestionsFromText_byLine raw k) \<longrightarrow>
      5 < length (trim q)
      \<and> (\<exists>line \<in> set (map trim (split_str LF raw)).
            (includes_str line qmark \<or> matchMarker line \<noteq> None) \<and> q = cleanSegment line))
   \<and> parseQuestionsFromText_byLine (lit ''1. Introduction'') 10 = [lit ''Introduction'']"
proof (intro conjI impI)
  assume "q \<in> set (parseQuestionsFromText raw k)"
  then obtain s where s: "s \<in> set (segments (normalise raw))"
    and q: "q = cleanSegment s" and k: "keepQuestion q"
    using parse_member by blast
  from s obtain p where "s = p @ [qmark]" using segments_snoc_qmark by blast
  with q obtain p' where p': "q = p' @ [qmark]" using cleanSegment_snoc_qmark [of p] by auto
  have "trim q = q" unfolding q cleanSegment_def by (rule trim_idem)
  with k p' show "q \<noteq> []" and "last q = qmark" and "5 < length (trim q)"
    by (simp_all add: keepQuestion_def)
next
  assume "q \<in> set (parseQuestionsFromText_byLine raw k)"
  then show "5 < length (trim q)"
    and "\<exists>line \<in> set (map trim (split_str LF raw)).
            (includes_str line qmark \<or> matchMarker line \<noteq> None) \<and> q = cleanSegment line"
    using byLine_member by blast+
next
  show "parseQuestionsFromText_byLine (lit ''1. Introduction'') 10 = [lit ''Introduction'']"
    by (rule byLine_numbered_line_without_question_mark)
qed

theorem parsed_questions_are_well_formed_witness:
  "lit ''What is Y?'' \<in> set (parseQuestionsFromText (lit ''1. What is X? 2. What is Y? 3. What is Z?'') 10)
   \<and> lit ''What is Y?'' \<noteq> [] \<and> last (lit ''What is Y?'') = qmark
   \<and> 5 < length (trim (lit ''What is Y?''))
   \<and> lit ''Introduction'' \<in> set (parseQuestionsFromText_byLine (lit ''1. Introduction'') 10)
   \<and> 5 < length (trim (lit ''Introduction''))"
proof -
  have h: "lit ''What is Y?''
             \<in> set (parseQuestionsFromText (lit ''1. What is X? 2. What is Y? 3. What is Z?'') 10)"
    by (simp add: parse_three_questions)
  have g: "lit ''Introduction'' \<in> set (parseQuestionsFromText_byLine (lit ''1. Introduction'') 10)"
    by (simp add: byLine_numbered_line_without_question_mark)
  from parsed_questions_are_well_formed
         [of "lit ''What is Y?''" "lit ''1. What is X? 2. What is Y? 3. What is Z?''" 10] h
  have a: "lit ''What is Y?'' \<noteq> [] \<and> last (lit ''What is Y?'') = qmark
           \<and> 5 < length (trim (lit ''What is Y?''))"
    by blast
  from parsed_questions_are_well_formed [of "lit ''Introduction''" "lit ''1. Introduction''" 10] g
  have b: "5 < length (trim (lit ''Introduction''))"
    by blast
  from h a g b show ?thesis by blast
qed

text \<open>
  Claim C4. For every input text and every \<open>maxQuestions = k \<ge> 0\<close>, the list the
  parser returns has length at most \<open>k\<close>.
\<close>

theorem parsed_questions_respect_the_bound:
  assumes "0 \<le> k"
  shows "length (parseQuestionsFromText raw k) \<le> nat k"
  using assms by (simp add: parseQuestionsFromText_def slice0_def)

theorem parsed_questions_respect_the_bound_witness:
  "(0::int) \<le> 2
   \<and> length (parseQuestionsFromText (lit ''1. What is X? 2. What is Y? 3. What is Z?'') 2) \<le> nat 2"
proof -
  have h: "(0::int) \<le> 2" by simp
  from parsed_questions_respect_the_bound [OF h] h show ?thesis by blast
qed

text \<open>
  Claim C8. The parser keeps the order of the candidate segments. Let \<open>A\<close> be segment
  \<open>i\<close> and \<open>B\<close> segment \<open>j\<close> of the normalised input, \<open>A\<close> before \<open>B\<close>, both kept by the
  cleaning and the filter. The place of a kept segment is the number of kept segments
  before it. Then the place of \<open>A\<close> is before the place of \<open>B\<close>, and the list returned
  has the cleaned \<open>A\<close> at the place of \<open>A\<close> and the cleaned \<open>B\<close> at the place of \<open>B\<close>,
  as far as it reaches (it is cut at \<open>maxQuestions\<close>).
\<close>

theorem parser_preserves_order:
  fixes raw :: ustring and k :: int and i j :: nat
  defines "cleaned \<equiv> map cleanSegment (segments (normalise raw))"
  defines "out \<equiv> parseQuestionsFromText raw k"
  defines "place \<equiv> (\<lambda>n. length (filter keepQuestion (take n cleaned)))"
  assumes "i < j" "j < length cleaned"
    and "keepQuestion (cleaned ! i)" "keepQuestion (cleaned ! j)"
  shows "place i < place j
         \<and> (place i < length out \<longrightarrow> out ! place i = cleaned ! i)
         \<and> (place j < length out \<longrightarrow> out ! place j = cleaned ! j)"
proof -
  obtain n where n: "out = take n (filter keepQuestion cleaned)"
    unfolding out_def cleaned_def parseQuestionsFromText_def Let_def
    using slice0_take by blast
  have ij: "place i < place j"
    unfolding place_def using assms(4,5,6) by (intro filter_take_mono) simp_all
  have "filter keepQuestion cleaned ! place i = cleaned ! i"
    unfolding place_def using assms(4,5,6) by (intro filter_take_position(2)) simp_all
  moreover have "filter keepQuestion cleaned ! place j = cleaned ! j"
    unfolding place_def using assms(5,7) by (intro filter_take_position(2)) simp_all
  ultimately show ?thesis using ij n by simp
qed

theorem parser_preserves_order_witness:
  "(0::nat) < 1
   \<and> 1 < length (map cleanSegment (segments (normalise (lit ''1. What is X? 2. What is Y? 3. What is Z?''))))
   \<and> keepQuestion (map cleanSegment (segments (normalise (lit ''1. What is X? 2. What is Y? 3. What is Z?''))) ! 0)
   \<and> keepQuestion (map cleanSegment (segments (normalise (lit ''1. What is X? 2. What is Y? 3. What is Z?''))) ! 1)
   \<and> length (filter keepQuestion (take 1
         (map cleanSegment (segments (normalise (lit ''1. What is X? 2. What is Y? 3. What is Z?''))))))
       < length (parseQuestionsFromText (lit ''1. What is X? 2. What is Y? 3. What is Z?'') 2)
   \<and> parseQuestionsFromText (lit ''1. What is X? 2. What is Y? 3. What is Z?'') 2 ! 0 = lit ''What is X?''
   \<and> parseQuestionsFromText (lit ''1. What is X? 2. What is Y? 3. What is Z?'') 2 ! 1 = lit ''What is Y?''"
proof -
  let ?raw = "lit ''1. What is X? 2. What is Y? 3. What is Z?''"
  let ?cleaned = "map cleanSegment (segments (normalise ?raw))"
  have c: "?cleaned = [lit ''What is X?'', lit ''What is Y?'', lit ''What is Z?'']"
    by (rule cleaned_three_questions)
  have out: "parseQuestionsFromText ?raw 2 = [lit ''What is X?'', lit ''What is Y?'']"
    by (simp add: parse_three_questions take_Cons')
  have h1: "(0::nat) < 1" by simp
  have h2: "1 < length ?cleaned" by (simp add: c)
  have h3: "keepQuestion (?cleaned ! 0)" by (simp add: c keep_three_questions)
  have h4: "keepQuestion (?cleaned ! 1)" by (simp add: c keep_three_questions)
  have p0: "length (filter keepQuestion (take 0 ?cleaned)) = 0" by simp
  have p1: "length (filter keepQuestion (take 1 ?cleaned)) = 1"
    by (simp add: c keep_three_questions)
  have h5: "length (filter keepQuestion (take 1 ?cleaned)) < length (parseQuestionsFromText ?raw 2)"
    by (simp add: c out keep_three_questions)
  have h6: "length (filter keepQuestion (take 0 ?cleaned)) < length (parseQuestionsFromText ?raw 2)"
    by (simp add: out)
  from parser_preserves_order [OF h1 h2 h3 h4, of 2] h5 h6
  have "parseQuestionsFromText ?raw 2 ! length (filter keepQuestion (take 0 ?cleaned)) = ?cleaned ! 0
        \<and> parseQuestionsFromText ?raw 2 ! length (filter keepQuestion (take 1 ?cleaned)) = ?cleaned ! 1"
    by blast
  then have "parseQuestionsFromText ?raw 2 ! 0 = ?cleaned ! 0
        \<and> parseQuestionsFromText ?raw 2 ! 1 = ?cleaned ! 1"
    by (simp only: p0 p1)
  then have "parseQuestionsFromText ?raw 2 ! 0 = lit ''What is X?''
        \<and> parseQuestionsFromText ?raw 2 ! 1 = lit ''What is Y?''"
    by (simp add: c)
  with h1 h2 h3 h4 h5 show ?thesis by blast
qed

section \<open>Properties of the question-generation tool\<close>



lemma tool_catch:
  assumes "executeTry (tool_context.extractedText ctx)
             (case maxQuestions ctx of None \<Rightarrow> 10 | Some n \<Rightarrow> n) mastra = (sent, Inl error)"
  shows "snd (generateQuestionsFromTextTool ctx mastra) = Inr noQuestions"
  using assms by (auto simp: generateQuestionsFromTextTool_def Let_def)

lemma tool_pass:
  assumes "trim (tool_context.extractedText ctx) \<noteq> []"
    and "executeTry (tool_context.extractedText ctx)
           (case maxQuestions ctx of None \<Rightarrow> 10 | Some n \<Rightarrow> n) mastra = (sent, result)"
  shows "fst (generateQuestionsFromTextTool ctx mastra) = sent"
    and "\<And>r. result = Inr r \<Longrightarrow> snd (generateQuestionsFromTextTool ctx mastra) = Inr r"
  using assms by (auto simp: generateQuestionsFromTextTool_def Let_def split: sum.splits)

lemma executeTry_parsed:
  assumes "getAgent mastra (lit ''textQuestionAgent'') = Inr (Some agent)"
    and "stream agent (questionRequest text k) = Inr ts"
    and "drain [] ts = Inr raw"
    and "20 < length (trim raw)"
  shows "executeTry text k mastra =
           ([questionRequest text k],
            Inr \<lparr>questions = parseQuestionsFromText raw k, success = True,
                 questionCount = length (parseQuestionsFromText raw k)\<rparr>)"
  using assms by (simp add: executeTry_def Let_def)


lemma executeTry_raises:
  assumes "getAgent mastra (lit ''textQuestionAgent'') = Inl error
           \<or> getAgent mastra (lit ''textQuestionAgent'') = Inr None
           \<or> (\<exists>agent. getAgent mastra (lit ''textQuestionAgent'') = Inr (Some agent)
                \<and> (stream agent (questionRequest text k) = Inl error
                     \<or> (\<exists>ts. stream agent (questionRequest text k) = Inr ts
                          \<and> drain [] ts = Inl error)))"
  shows "\<exists>sent e. executeTry text k mastra = (sent, Inl e)"
  using assms by (auto simp: executeTry_def Let_def)






lemma step_returns:
  "\<exists>r. snd (generateQuestionsFromSummaryStep summ mastra) = Inr r"
  by (simp add: generateQuestionsFromSummaryStep_def split: prod.splits sum.splits)

lemma short_answers_text:
  "20 < length (trim (lit ''a?b?c?d?e?f?g?h?i?j?k?''))"
  "parseQuestionsFromText (lit ''a?b?c?d?e?f?g?h?i?j?k?'') 10 = []"
  by (simp_all add: parser_defs)

lemma summary_text_nonblank: "trim (lit ''A summary.'') \<noteq> []"
  by (simp add: trim_def lit_def isWhiteSpace_def)

lemma mastraWith_getAgent [simp]: "getAgent (Some (mastraWith a)) name = Inr (Some a)"
  by (simp add: getAgent_def mastraWith_def)

lemma replyingAgent_stream [simp]:
  "stream (replyingAgent reply) request = Inr (Chunk (Some reply) EndOfStream)"
  by (simp add: replyingAgent_def)

lemma failingAgent_stream [simp]: "stream (failingAgent error) request = Inl error"
  by (simp add: failingAgent_def)


lemma executeTry_byLine_parsed:
  assumes "getAgent mastra (lit ''textQuestionAgent'') = Inr (Some agent)"
    and "stream agent (questionRequest text k) = Inr ts"
    and "drain [] ts = Inr raw"
    and "20 < length (trim raw)"
  shows "executeTry_byLine text k mastra =
           ([questionRequest text k],
            Inr \<lparr>questions = parseQuestionsFromText_byLine raw k, success = True,
                 questionCount = length (parseQuestionsFromText_byLine raw k)\<rparr>)"
  using assms by (simp add: executeTry_byLine_def Let_def)

lemma tool_byLine_pass:
  assumes "trim (tool_context.extractedText ctx) \<noteq> []"
    and "executeTry_byLine (tool_context.extractedText ctx)
           (case maxQuestions ctx of None \<Rightarrow> 10 | Some n \<Rightarrow> n) mastra = (sent, Inr r)"
  shows "snd (generateQuestionsFromTextTool_byLine ctx mastra) = Inr r"
  using assms by (auto simp: generateQuestionsFromTextTool_byLine_def Let_def)

lemma no_question_marks_text_is_long:
  "20 < length (trim (lit ''This document has no question marks at all.''))"
  by (simp add: trim_def isWhiteSpace_def lit_def)

lemma tool_passes_empty_parse:
  assumes "trim (tool_context.extractedText ctx) \<noteq> []"
    and "k = (case maxQuestions ctx of None \<Rightarrow> 10 | Some n \<Rightarrow> n)"
    and "getAgent mastra (lit ''textQuestionAgent'') = Inr (Some agent)"
    and "stream agent (questionRequest (tool_context.extractedText ctx) k) = Inr ts"
    and "drain [] ts = Inr raw"
    and "20 < length (trim raw)"
    and "parseQuestionsFromText raw k = []"
  shows "snd (generateQuestionsFromTextTool ctx mastra)
           = Inr \<lparr>questions = [], success = True, questionCount = 0\<rparr>"
proof -
  from assms(3-6) have "executeTry (tool_context.extractedText ctx) k mastra =
          ([questionRequest (tool_context.extractedText ctx) k],
           Inr \<lparr>questions = parseQuestionsFromText raw k, success = True,
                questionCount = length (parseQuestionsFromText raw k)\<rparr>)"
    by (rule executeTry_parsed)
  with assms(1,2,7) show ?thesis
    by (intro tool_pass(2) [where sent = "[questionRequest (tool_context.extractedText ctx) k]"])
       simp_all
qed

lemma tool_byLine_passes_empty_parse:
  assumes "trim (tool_context.extractedText ctx) \<noteq> []"
    and "k = (case maxQuestions ctx of None \<Rightarrow> 10 | Some n \<Rightarrow> n)"
    and "getAgent mastra (lit ''textQuestionAgent'') = Inr (Some agent)"
    and "stream agent (questionRequest (tool_context.extractedText ctx) k) = Inr ts"
    and "drain [] ts = Inr raw"
    and "20 < length (trim raw)"
    and "parseQuestionsFromText_byLine raw k = []"
  shows "snd (generateQuestionsFromTextTool_byLine ctx mastra)
           = Inr \<lparr>questions = [], success = True, questionCount = 0\<rparr>"
proof -
  from assms(3-6) have "executeTry_byLine (tool_context.extractedText ctx) k mastra =
          ([questionRequest (tool_context.extractedText ctx) k],
           Inr \<lparr>questions = parseQuestionsFromText_byLine raw k, success = True,
                questionCount = length (parseQuestionsFromText_byLine raw k)\<rparr>)"
    by (rule executeTry_byLine_parsed)
  with assms(1,2,7) show ?thesis
    by (intro tool_byLine_pass [where sent = "[questionRequest (tool_context.extractedText ctx) k]"])
       simp_all
qed

lemma tool_on_short_answers:
  "snd (generateQuestionsFromTextTool
          \<lparr>tool_context.extractedText = lit ''A summary.'', maxQuestions = None\<rparr>
          (Some (mastraWith (replyingAgent (lit ''a?b?c?d?e?f?g?h?i?j?k?'')))))
     = Inr \<lparr>questions = [], success = True, questionCount = 0\<rparr>"
  by (rule tool_passes_empty_parse
        [where k = 10 and agent = "replyingAgent (lit ''a?b?c?d?e?f?g?h?i?j?k?'')"
           and ts = "Chunk (Some (lit ''a?b?c?d?e?f?g?h?i?j?k?'')) EndOfStream"
           and raw = "lit ''a?b?c?d?e?f?g?h?i?j?k?''"])
     (simp_all add: summary_text_nonblank short_answers_text)

lemma tool_byLine_on_no_question_marks:
  "snd (generateQuestionsFromTextTool_byLine
          \<lparr>tool_context.extractedText = lit ''A summary.'', maxQuestions = None\<rparr>
          (Some (mastraWith (replyingAgent (lit ''This document has no question marks at all.'')))))
     = Inr \<lparr>questions = [], success = True, questionCount = 0\<rparr>"
  by (rule tool_byLine_passes_empty_parse
        [where k = 10 and agent = "replyingAgent (lit ''This document has no question marks at all.'')"
           and ts = "Chunk (Some (lit ''This document has no question marks at all.'')) EndOfStream"
           and raw = "lit ''This document has no question marks at all.''"])
     (simp_all add: summary_text_nonblank no_question_marks_text_is_long byLine_no_question_marks)

text \<open>
  Claim C1, as stated, fails on both copies of the tool: a completion that passes the
  check of its trimmed length and from which the parser gets no question is returned with
  \<open>success: true\<close>. For the copy at \<open>src/mastra/tools\<close> the completion is the claim's
  own \<open>This document has no question marks at all.\<close>; for the \<open>part_002\<close> copy it is
  \<open>a?b?c?d?e?f?g?h?i?j?k?\<close> (22 code units, every segment too short).
\<close>

theorem empty_parse_still_reports_success:
  "20 < length (trim (lit ''This document has no question marks at all.''))
   \<and> parseQuestionsFromText_byLine (lit ''This document has no question marks at all.'') 10 = []
   \<and> snd (generateQuestionsFromTextTool_byLine
            \<lparr>tool_context.extractedText = lit ''A summary.'', maxQuestions = None\<rparr>
            (Some (mastraWith (replyingAgent (lit ''This document has no question marks at all.'')))))
       = Inr \<lparr>questions = [], success = True, questionCount = 0\<rparr>
   \<and> 20 < length (trim (lit ''a?b?c?d?e?f?g?h?i?j?k?''))
   \<and> parseQuestionsFromText (lit ''a?b?c?d?e?f?g?h?i?j?k?'') 10 = []
   \<and> snd (generateQuestionsFromTextTool
            \<lparr>tool_context.extractedText = lit ''A summary.'', maxQuestions = None\<rparr>
            (Some (mastraWith (replyingAgent (lit ''a?b?c?d?e?f?g?h?i?j?k?'')))))
       = Inr \<lparr>questions = [], success = True, questionCount = 0\<rparr>"
  using no_question_marks_text_is_long byLine_no_question_marks tool_byLine_on_no_question_marks
    short_answers_text tool_on_short_answers
  by blast

text \<open>
  Claim C1, amended. If the raw completion text passes the check (trimmed length above
  20) and the parser extracts no question from it, the tool does not throw and returns
  the empty question list with \<open>questionCount\<close> 0 and \<open>success: true\<close>. This holds for
  both copies of the tool: for the copy at \<open>src/mastra/tools\<close> for example on the
  completion \<open>This document has no question marks at all.\<close>, for the \<open>part_002\<close> copy
  for example on \<open>a?b?c?d?e?f?g?h?i?j?k?\<close> (its parser makes the one element
  \<open>This document has no question marks at all.?\<close> of the former).
\<close>

theorem passing_completion_with_no_questions:
  assumes "trim (tool_context.extractedText ctx) \<noteq> []"
    and "k = (case maxQuestions ctx of None \<Rightarrow> 10 | Some n \<Rightarrow> n)"
    and "getAgent mastra (lit ''textQuestionAgent'') = Inr (Some agent)"
    and "stream agent (questionRequest (tool_context.extractedText ctx) k) = Inr ts"
    and "drain [] ts = Inr raw"
    and "20 < length (trim raw)"
  shows "(parseQuestionsFromText_byLine raw k = [] \<longrightarrow>
            snd (generateQuestionsFromTextTool_byLine ctx mastra)
              = Inr \<lparr>questions = [], success = True, questionCount = 0\<rparr>)
         \<and> (parseQuestionsFromText raw k = [] \<longrightarrow>
            snd (generateQuestionsFromTextTool ctx mastra)
              = Inr \<lparr>questions = [], success = True, questionCount = 0\<rparr>)
         \<and> snd (generateQuestionsFromTextTool_byLine
                  \<lparr>tool_context.extractedText = lit ''A summary.'', maxQuestions = None\<rparr>
                  (Some (mastraWith (replyingAgent (lit ''This document has no question marks at all.'')))))
             = Inr \<lparr>questions = [], success = True, questionCount = 0\<rparr>
         \<and> snd (generateQuestionsFromTextTool
                  \<lparr>tool_context.extractedText = lit ''A summary.'', maxQuestions = None\<rparr>
                  (Some (mastraWith (replyingAgent (lit ''a?b?c?d?e?f?g?h?i?j?k?'')))))
             = Inr \<lparr>questions = [], success = True, questionCount = 0\<rparr>
         \<and> parseQuestionsFromText (lit ''This document has no question marks at all.'') 10
             = [lit ''This document has no question marks at all.?'']"
proof (intro conjI impI)
  assume "parseQuestionsFromText_byLine raw k = []"
  with assms show "snd (generateQuestionsFromTextTool_byLine ctx mastra)
              = Inr \<lparr>questions = [], success = True, questionCount = 0\<rparr>"
    by (rule tool_byLine_passes_empty_parse)
next
  assume "parseQuestionsFromText raw k = []"
  with assms show "snd (generateQuestionsFromTextTool ctx mastra)
              = Inr \<lparr>questions = [], success = True, questionCount = 0\<rparr>"
    by (rule tool_passes_empty_parse)
next
  show "snd (generateQuestionsFromTextTool_byLine
                  \<lparr>tool_context.extractedText = lit ''A summary.'', maxQuestions = None\<rparr>
                  (Some (mastraWith (replyingAgent (lit ''This document has no question marks at all.'')))))
             = Inr \<lparr>questions = [], success = True, questionCount = 0\<rparr>"
    by (rule tool_byLine_on_no_question_marks)
next
  show "snd (generateQuestionsFromTextTool
                  \<lparr>tool_context.extractedText = lit ''A summary.'', maxQuestions = None\<rparr>
                  (Some (mastraWith (replyingAgent (lit ''a?b?c?d?e?f?g?h?i?j?k?'')))))
             = Inr \<lparr>questions = [], success = True, questionCount = 0\<rparr>"
    by (rule tool_on_short_answers)
next
  show "parseQuestionsFromText (lit ''This document has no question marks at all.'') 10
             = [lit ''This document has no question marks at all.?'']"
    by (rule no_question_marks_is_one_segment)
qed

theorem passing_completion_with_no_questions_witness:
  "trim (tool_context.extractedText
           \<lparr>tool_context.extractedText = lit ''Another summary.'', maxQuestions = Some 3\<rparr>) \<noteq> []
   \<and> 20 < length (trim (lit ''Ok?\<newline>No?\<newline>Yes?\<newline>So?\<newline>Eh?\<newline>Hm?''))
   \<and> parseQuestionsFromText_byLine (lit ''Ok?\<newline>No?\<newline>Yes?\<newline>So?\<newline>Eh?\<newline>Hm?'') 3 = []
   \<and> parseQuestionsFromText (lit ''Ok?\<newline>No?\<newline>Yes?\<newline>So?\<newline>Eh?\<newline>Hm?'') 3 = []
   \<and> snd (generateQuestionsFromTextTool_byLine
            \<lparr>tool_context.extractedText = lit ''Another summary.'', maxQuestions = Some 3\<rparr>
            (Some (mastraWith (replyingAgent (lit ''Ok?\<newline>No?\<newline>Yes?\<newline>So?\<newline>Eh?\<newline>Hm?'')))))
       = Inr \<lparr>questions = [], success = True, questionCount = 0\<rparr>
   \<and> snd (generateQuestionsFromTextTool
            \<lparr>tool_context.extractedText = lit ''Another summary.'', maxQuestions = Some 3\<rparr>
            (Some (mastraWith (replyingAgent (lit ''Ok?\<newline>No?\<newline>Yes?\<newline>So?\<newline>Eh?\<newline>Hm?'')))))
       = Inr \<lparr>questions = [], success = True, questionCount = 0\<rparr>"
proof -
  let ?ctx = "\<lparr>tool_context.extractedText = lit ''Another summary.'', maxQuestions = Some 3\<rparr>"
  let ?raw = "lit ''Ok?\<newline>No?\<newline>Yes?\<newline>So?\<newline>Eh?\<newline>Hm?''"
  have h1: "trim (tool_context.extractedText ?ctx) \<noteq> []"
    by (simp add: trim_def lit_def isWhiteSpace_def)
  have h2: "(3::int) = (case maxQuestions ?ctx of None \<Rightarrow> 10 | Some n \<Rightarrow> n)" by simp
  have h3: "getAgent (Some (mastraWith (replyingAgent ?raw))) (lit ''textQuestionAgent'')
              = Inr (Some (replyingAgent ?raw))" by simp
  have h4: "stream (replyingAgent ?raw) (questionRequest (tool_context.extractedText ?ctx) 3)
              = Inr (Chunk (Some ?raw) EndOfStream)" by simp
  have h5: "drain [] (Chunk (Some ?raw) EndOfStream) = Inr ?raw" by simp
  have h6: "20 < length (trim ?raw)"
    by (simp add: trim_def lit_def isWhiteSpace_def)
  have h7: "parseQuestionsFromText_byLine ?raw 3 = []"
    by (simp add: parseQuestionsFromText_byLine_def parser_defs)
  have h8: "parseQuestionsFromText ?raw 3 = []"
    by (simp add: parser_defs)
  note th = passing_completion_with_no_questions [OF h1 h2 h3 h4 h5 h6]
  from th h7 have a: "snd (generateQuestionsFromTextTool_byLine ?ctx (Some (mastraWith (replyingAgent ?raw))))
       = Inr \<lparr>questions = [], success = True, questionCount = 0\<rparr>"
    by blast
  from th h8 have b: "snd (generateQuestionsFromTextTool ?ctx (Some (mastraWith (replyingAgent ?raw))))
       = Inr \<lparr>questions = [], success = True, questionCount = 0\<rparr>"
    by blast
  from h1 h6 h7 h8 a b show ?thesis by blast
qed



text \<open>
  Claim C7. An exception raised in the question-generation stage (the registry throws
  or has no agent, the call of the completion service throws, or the stream fails while it
  is read) is caught: the tool returns its empty result and the workflow step returns
  \<open>{questions: [], success: false}\<close>; the step never ends in an exception.
\<close>

theorem generation_failures_are_absorbed:
  fixes summ :: ustring and mastra :: "mastra option" and error :: thrown
  defines "name \<equiv> lit ''textQuestionAgent''"
  defines "request \<equiv> questionRequest summ 10"
  assumes "getAgent mastra name = Inl error
           \<or> getAgent mastra name = Inr None
           \<or> (\<exists>agent. getAgent mastra name = Inr (Some agent)
                \<and> (stream agent request = Inl error
                     \<or> (\<exists>ts. stream agent request = Inr ts \<and> drain [] ts = Inl error)))"
  shows "snd (generateQuestionsFromSummaryStep summ mastra) = Inr \<lparr>questions = [], success = False\<rparr>
         \<and> snd (generateQuestionsFromTextTool
                  \<lparr>tool_context.extractedText = summ, maxQuestions = None\<rparr> mastra)
             = Inr \<lparr>questions = [], success = False, questionCount = 0\<rparr>
         \<and> (\<exists>r. snd (generateQuestionsFromSummaryStep s m) = Inr r)"
proof -
  let ?ctx = "\<lparr>tool_context.extractedText = summ, maxQuestions = None\<rparr>"
  from assms(3) obtain sent e where "executeTry summ 10 mastra = (sent, Inl e)"
    unfolding name_def request_def using executeTry_raises [of mastra error summ 10] by blast
  then have t: "snd (generateQuestionsFromTextTool ?ctx mastra) = Inr noQuestions"
    by (intro tool_catch [where sent = sent and error = e]) simp
  then have "snd (generateQuestionsFromSummaryStep summ mastra)
               = Inr \<lparr>questions = [], success = False\<rparr>"
    by (cases "summ = []")
       (auto simp: generateQuestionsFromSummaryStep_def noQuestions_def split: prod.splits sum.splits)
  with t step_returns [of s m] show ?thesis by (simp add: noQuestions_def)
qed

theorem generation_failures_are_absorbed_witness:
  "(\<exists>agent. getAgent (Some (mastraWith (failingAgent (Error (lit ''context length exceeded'')))))
               (lit ''textQuestionAgent'') = Inr (Some agent)
        \<and> stream agent (questionRequest (lit ''A summary.'') 10)
            = Inl (Error (lit ''context length exceeded'')))
   \<and> snd (generateQuestionsFromSummaryStep (lit ''A summary.'')
            (Some (mastraWith (failingAgent (Error (lit ''context length exceeded''))))))
       = Inr \<lparr>questions = [], success = False\<rparr>"
proof -
  let ?e = "Error (lit ''context length exceeded'')"
  let ?m = "Some (mastraWith (failingAgent ?e))"
  have h: "\<exists>agent. getAgent ?m (lit ''textQuestionAgent'') = Inr (Some agent)
             \<and> stream agent (questionRequest (lit ''A summary.'') 10) = Inl ?e"
    by simp
  then have "getAgent ?m (lit ''textQuestionAgent'') = Inl ?e
           \<or> getAgent ?m (lit ''textQuestionAgent'') = Inr None
           \<or> (\<exists>agent. getAgent ?m (lit ''textQuestionAgent'') = Inr (Some agent)
                \<and> (stream agent (questionRequest (lit ''A summary.'') 10) = Inl ?e
                     \<or> (\<exists>ts. stream agent (questionRequest (lit ''A summary.'') 10) = Inr ts
                          \<and> drain [] ts = Inl ?e)))"
    by blast
  from generation_failures_are_absorbed [OF this] h show ?thesis by blast
qed



section \<open>Properties of the text extractor\<close>

lemma dataReady_result:
  assumes "dataReady dec pdata = Inr r"
  shows "extraction.extractedText r \<noteq> []
         \<and> trim (extraction.extractedText r) = extraction.extractedText r
         \<and> (\<exists>d pages. pdata = Some d \<and> Pages d = Some pages
                \<and> extraction.pagesCount r = length pages)"
proof -
  from assms obtain t n where c: "collectText dec pdata = Inr (t, n)"
    and ne: "trim t \<noteq> []"
    and r: "r = \<lparr>extraction.extractedText = trim t, pagesCount = n\<rparr>"
    by (auto simp: dataReady_def Let_def split: sum.splits prod.splits if_splits)
  have "\<exists>d pages. pdata = Some d \<and> Pages d = Some pages \<and> n = length pages"
  proof (cases pdata)
    case None
    with c ne show ?thesis by (simp add: collectText_def)
  next
    case (Some d)
    with c ne show ?thesis
      by (cases "Pages d") (auto simp: collectText_def split: sum.splits)
  qed
  with ne r show ?thesis by (simp add: trim_idem)
qed

lemma dataReady_no_text:
  assumes "collectText dec pdata = Inr (t, n)" "trim t = []"
  shows "dataReady dec pdata = Inl (Error (lit ''No text could be extracted from the PDF''))"
  using assms by (simp add: dataReady_def Let_def)

lemma extract_empty_buffer:
  "extractTextFromPDF prs dec None = ([], Inl (Error (lit ''Invalid PDF file: empty buffer'')))"
  "extractTextFromPDF prs dec (Some []) = ([], Inl (Error (lit ''Invalid PDF file: empty buffer'')))"
  by (simp_all add: extractTextFromPDF_def)

lemma extract_parses:
  assumes "buffer \<noteq> []"
  shows "extractTextFromPDF prs dec (Some buffer) =
           ([buffer], case prs buffer of DataReady pdata \<Rightarrow> dataReady dec pdata
                                        | DataError e \<Rightarrow> Inl (dataError e))"
  using assms by (simp add: extractTextFromPDF_def)

lemma extract_success:
  assumes "snd (extractTextFromPDF prs dec buf) = Inr r"
  shows "\<exists>buffer pdata. buf = Some buffer \<and> buffer \<noteq> [] \<and> prs buffer = DataReady pdata
           \<and> dataReady dec pdata = Inr r"
  using assms
  by (auto simp: extractTextFromPDF_def split: option.splits if_splits parserEvent.splits)

lemma error_messages_differ:
  "lit ''Invalid PDF file: empty buffer'' \<noteq> lit ''No text could be extracted from the PDF''"
  by (simp add: lit_def)

lemma trim_blank:
  assumes "\<forall>c \<in> set s. isWhiteSpace c"
  shows "trim s = []"
proof -
  from assms have d: "dropWhile isWhiteSpace s = []" by simp
  show ?thesis unfolding trim_def d by simp
qed

lemma runsLoop_no_text:
  assumes "list_all (\<lambda>run. T run = None \<or> T run = Some []) runs"
  shows "runsLoop dec acc runs = Inr acc"
  using assms by (induction runs) auto

lemma textsLoop_no_text:
  assumes "list_all (\<lambda>item. case R item of None \<Rightarrow> True
             | Some runs \<Rightarrow> list_all (\<lambda>run. T run = None \<or> T run = Some []) runs) items"
  shows "textsLoop dec acc items = Inr acc"
  using assms by (induction items) (auto simp: runsLoop_no_text split: option.splits)

lemma pagesLoop_no_text:
  assumes "list_all (\<lambda>p. case Texts p of None \<Rightarrow> True
             | Some items \<Rightarrow> list_all (\<lambda>item. case R item of None \<Rightarrow> True
                 | Some runs \<Rightarrow> list_all (\<lambda>run. T run = None \<or> T run = Some []) runs) items) pages"
  shows "pagesLoop dec acc pages = Inr (acc @ concat (replicate (length pages) (lit ''\<newline>\<newline>'')))"
  using assms
proof (induction pages arbitrary: acc)
  case Nil
  then show ?case by simp
next
  case (Cons p ps)
  then show ?case
    by (cases "Texts p") (simp_all add: textsLoop_no_text replicate_app_Cons_same)
qed

lemma page_breaks_blank:
  "trim (concat (replicate n (lit ''\<newline>\<newline>''))) = []"
  by (rule trim_blank) (auto simp: lit_def isWhiteSpace_def)

lemma document_without_text_runs:
  assumes "case pdata of None \<Rightarrow> True | Some d \<Rightarrow>
            (case Pages d of None \<Rightarrow> True | Some pages \<Rightarrow>
               list_all (\<lambda>p. case Texts p of None \<Rightarrow> True
                 | Some items \<Rightarrow> list_all (\<lambda>item. case R item of None \<Rightarrow> True
                     | Some runs \<Rightarrow> list_all (\<lambda>run. T run = None \<or> T run = Some []) runs) items) pages)"
  shows "\<exists>t n. collectText dec pdata = Inr (t, n) \<and> trim t = []"
proof (cases pdata)
  case None
  then show ?thesis by (simp add: collectText_def)
next
  case (Some d)
  show ?thesis
  proof (cases "Pages d")
    case None
    with Some show ?thesis by (simp add: collectText_def)
  next
    case (Some pages)
    with \<open>pdata = Some d\<close> assms
    have "pagesLoop dec [] pages = Inr ([] @ concat (replicate (length pages) (lit ''\<newline>\<newline>'')))"
      by (intro pagesLoop_no_text) simp
    with Some \<open>pdata = Some d\<close> show ?thesis
      by (simp add: collectText_def page_breaks_blank)
  qed
qed

lemma blank_pages_text:
  "collectText plainDecoder (Some \<lparr>Pages = Some [\<lparr>Texts = None\<rparr>, \<lparr>Texts = Some [\<lparr>R = Some []\<rparr>]\<rparr>]\<rparr>)
     = Inr (lit ''\<newline>\<newline>\<newline>\<newline>'', 2)"
  by (simp add: collectText_def lit_def)

lemma one_page_text:
  "dataReady plainDecoder (Some \<lparr>Pages = Some [\<lparr>Texts = Some [\<lparr>R = Some [\<lparr>T = Some (lit ''Hello PDF'')\<rparr>]\<rparr>]\<rparr>]\<rparr>)
     = Inr \<lparr>extraction.extractedText = lit ''Hello PDF'', pagesCount = 1\<rparr>"
  by (simp add: dataReady_def collectText_def plainDecoder_def trim_def isWhiteSpace_def lit_def)

text \<open>
  Claim C6. A missing or empty buffer is refused with the \<open>empty buffer\<close> error and
  nothing is handed to the parser. A parsed document without text (no text run with a
  non-empty \<open>T\<close>, or a collected text that is all white space) is refused with the
  different error \<open>No text could be extracted from the PDF\<close>. A successful extraction
  has a non-empty, trimmed text and the page count of the parsed document, which is
  at least 0.
\<close>

theorem extraction_failures_and_success:
  "extractTextFromPDF prs dec None = ([], Inl (Error (lit ''Invalid PDF file: empty buffer'')))
   \<and> extractTextFromPDF prs dec (Some []) = ([], Inl (Error (lit ''Invalid PDF file: empty buffer'')))
   \<and> (buffer \<noteq> [] \<longrightarrow> prs buffer = DataReady pdata \<longrightarrow>
        ((case pdata of None \<Rightarrow> True | Some d \<Rightarrow>
            (case Pages d of None \<Rightarrow> True | Some pages \<Rightarrow>
               list_all (\<lambda>p. case Texts p of None \<Rightarrow> True
                 | Some items \<Rightarrow> list_all (\<lambda>item. case R item of None \<Rightarrow> True
                     | Some runs \<Rightarrow> list_all (\<lambda>run. T run = None \<or> T run = Some []) runs) items) pages))
         \<or> (\<exists>t n. collectText dec pdata = Inr (t, n) \<and> trim t = [])) \<longrightarrow>
        extractTextFromPDF prs dec (Some buffer)
          = ([buffer], Inl (Error (lit ''No text could be extracted from the PDF''))))
   \<and> lit ''Invalid PDF file: empty buffer'' \<noteq> lit ''No text could be extracted from the PDF''
   \<and> (snd (extractTextFromPDF prs dec buf) = Inr r \<longrightarrow>
        extraction.extractedText r \<noteq> []
        \<and> trim (extraction.extractedText r) = extraction.extractedText r
        \<and> 0 \<le> extraction.pagesCount r
        \<and> (\<exists>buffer d pages. buf = Some buffer \<and> prs buffer = DataReady (Some d)
              \<and> Pages d = Some pages \<and> extraction.pagesCount r = length pages))"
proof (intro conjI impI)
  show "extractTextFromPDF prs dec None = ([], Inl (Error (lit ''Invalid PDF file: empty buffer'')))"
    by (rule extract_empty_buffer)
  show "extractTextFromPDF prs dec (Some []) = ([], Inl (Error (lit ''Invalid PDF file: empty buffer'')))"
    by (rule extract_empty_buffer)
  show "lit ''Invalid PDF file: empty buffer'' \<noteq> lit ''No text could be extracted from the PDF''"
    by (rule error_messages_differ)
next
  assume b: "buffer \<noteq> []" "prs buffer = DataReady pdata"
    and "(case pdata of None \<Rightarrow> True | Some d \<Rightarrow>
            (case Pages d of None \<Rightarrow> True | Some pages \<Rightarrow>
               list_all (\<lambda>p. case Texts p of None \<Rightarrow> True
                 | Some items \<Rightarrow> list_all (\<lambda>item. case R item of None \<Rightarrow> True
                     | Some runs \<Rightarrow> list_all (\<lambda>run. T run = None \<or> T run = Some []) runs) items) pages))
         \<or> (\<exists>t n. collectText dec pdata = Inr (t, n) \<and> trim t = [])"
  then obtain t n where "collectText dec pdata = Inr (t, n)" "trim t = []"
    using document_without_text_runs [of pdata dec] by blast
  with b show "extractTextFromPDF prs dec (Some buffer)
          = ([buffer], Inl (Error (lit ''No text could be extracted from the PDF'')))"
    by (simp add: extract_parses dataReady_no_text)
next
  assume a: "snd (extractTextFromPDF prs dec buf) = Inr r"
  then obtain buffer pdata where b: "buf = Some buffer" "prs buffer = DataReady pdata"
    and d: "dataReady dec pdata = Inr r"
    using extract_success by blast
  from dataReady_result [OF d] b
  show "extraction.extractedText r \<noteq> []"
    and "trim (extraction.extractedText r) = extraction.extractedText r"
    and "0 \<le> extraction.pagesCount r"
    and "\<exists>buffer d pages. buf = Some buffer \<and> prs buffer = DataReady (Some d)
              \<and> Pages d = Some pages \<and> extraction.pagesCount r = length pages"
    by auto
qed

theorem extraction_failures_and_success_witness:
  "[0x25, 0x50, 0x44, 0x46] \<noteq> ([] :: 8 word list)
   \<and> blankPagesPdf [0x25, 0x50, 0x44, 0x46]
       = DataReady (Some \<lparr>Pages = Some [\<lparr>Texts = None\<rparr>, \<lparr>Texts = Some [\<lparr>R = Some []\<rparr>]\<rparr>]\<rparr>)
   \<and> collectText plainDecoder (Some \<lparr>Pages = Some [\<lparr>Texts = None\<rparr>, \<lparr>Texts = Some [\<lparr>R = Some []\<rparr>]\<rparr>]\<rparr>)
       = Inr (lit ''\<newline>\<newline>\<newline>\<newline>'', 2)
   \<and> trim (lit ''\<newline>\<newline>\<newline>\<newline>'') = []
   \<and> extractTextFromPDF blankPagesPdf plainDecoder (Some [0x25, 0x50, 0x44, 0x46])
       = ([[0x25, 0x50, 0x44, 0x46]], Inl (Error (lit ''No text could be extracted from the PDF'')))
   \<and> snd (extractTextFromPDF (onePagePdf (lit ''Hello PDF'')) plainDecoder (Some [0x25, 0x50, 0x44, 0x46]))
       = Inr \<lparr>extraction.extractedText = lit ''Hello PDF'', pagesCount = 1\<rparr>
   \<and> trim (lit ''Hello PDF'') = lit ''Hello PDF''"
proof -
  let ?buf = "[0x25, 0x50, 0x44, 0x46] :: 8 word list"
  let ?doc = "Some \<lparr>Pages = Some [\<lparr>Texts = None\<rparr>, \<lparr>Texts = Some [\<lparr>R = Some []\<rparr>]\<rparr>]\<rparr>"
  let ?r = "\<lparr>extraction.extractedText = lit ''Hello PDF'', pagesCount = 1\<rparr>"
  have h1: "?buf \<noteq> []" by simp
  have h2: "blankPagesPdf ?buf = DataReady ?doc" by (simp add: blankPagesPdf_def)
  note h3 = blank_pages_text
  have h4: "trim (lit ''\<newline>\<newline>\<newline>\<newline>'') = []"
    by (simp add: trim_def lit_def isWhiteSpace_def)
  have h5: "snd (extractTextFromPDF (onePagePdf (lit ''Hello PDF'')) plainDecoder (Some ?buf)) = Inr ?r"
    by (simp add: extract_parses onePagePdf_def one_page_text)
  note th = extraction_failures_and_success
    [where prs = blankPagesPdf and dec = plainDecoder and buffer = ?buf and pdata = ?doc]
  from h3 h4 have "\<exists>t n. collectText plainDecoder ?doc = Inr (t, n) \<and> trim t = []"
    by blast
  with th h1 h2
  have a: "extractTextFromPDF blankPagesPdf plainDecoder (Some ?buf)
       = ([?buf], Inl (Error (lit ''No text could be extracted from the PDF'')))"
    by blast
  note th2 = extraction_failures_and_success
    [where prs = "onePagePdf (lit ''Hello PDF'')" and dec = plainDecoder and buf = "Some ?buf" and r = ?r]
  from th2 h5 have "trim (extraction.extractedText ?r) = extraction.extractedText ?r"
    by blast
  then have b: "trim (lit ''Hello PDF'') = lit ''Hello PDF''" by simp
  from h1 h2 h3 h4 a h5 b show ?thesis by blast
qed

section \<open>Properties of the download-and-summarize tool\<close>

text \<open>
  Claim C10. When the download, the extraction and the agent lookup succeed and the
  summarization call completes with a missing or empty text, the tool does not fail: it
  returns the placeholder \<open>Summary could not be generated\<close> with the size of the
  downloaded buffer, the page count and the number of code units extracted.
\<close>

theorem missing_summary_gets_placeholder:
  assumes "fetch url = Inr resp" "ok resp" "arrayBuffer resp = Inr pdfBuffer"
    and "snd (extractTextFromPDF prs dec (Some pdfBuffer)) = Inr ex"
    and "getAgent mastra (lit ''pdfSummarizationAgent'') = Inr (Some agent)"
    and "generate agent (summaryRequest (extraction.extractedText ex)) = Inr txt"
    and "txt = None \<or> txt = Some []"
  shows "pdfFetcherTool fetch prs dec url mastra
           = Inr \<lparr>summary = lit ''Summary could not be generated'',
                  fileSize = length pdfBuffer,
                  pagesCount = extraction.pagesCount ex,
                  characterCount = length (extraction.extractedText ex)\<rparr>"
proof -
  from assms(4) obtain pdata where "dataReady dec pdata = Inr ex"
    using extract_success by blast
  then have ne: "extraction.extractedText ex \<noteq> []"
    and tr: "trim (extraction.extractedText ex) = extraction.extractedText ex"
    using dataReady_result by blast+
  from assms(7) have "pdfFetcherTry fetch prs dec url mastra
           = Inr \<lparr>summary = lit ''Summary could not be generated'',
                  fileSize = length pdfBuffer,
                  pagesCount = extraction.pagesCount ex,
                  characterCount = length (extraction.extractedText ex)\<rparr>"
    using assms(1-6) ne tr by (auto simp: pdfFetcherTry_def Let_def)
  then show ?thesis by (simp add: pdfFetcherTool_def)
qed

theorem missing_summary_gets_placeholder_witness:
  "generate silentAgent
     (summaryRequest (extraction.extractedText
        \<lparr>extraction.extractedText = lit ''Hello PDF'', pagesCount = 1\<rparr>)) = Inr None
   \<and> pdfFetcherTool (okFetch [0x25, 0x50, 0x44, 0x46]) (onePagePdf (lit ''Hello PDF'')) plainDecoder
        (lit ''https://example.com/a.pdf'') (Some (mastraWith silentAgent))
      = Inr \<lparr>summary = lit ''Summary could not be generated'', fileSize = 4, pagesCount = 1,
             characterCount = 9\<rparr>"
proof -
  let ?buf = "[0x25, 0x50, 0x44, 0x46] :: 8 word list"
  let ?r = "\<lparr>extraction.extractedText = lit ''Hello PDF'', pagesCount = 1\<rparr>"
  let ?resp = "\<lparr>ok = True, status = 200, statusText = lit ''OK'', arrayBuffer = Inr ?buf\<rparr>"
  have h1: "okFetch ?buf (lit ''https://example.com/a.pdf'') = Inr ?resp" by (simp add: okFetch_def)
  have h2: "ok ?resp" by simp
  have h3: "arrayBuffer ?resp = Inr ?buf" by simp
  have h4: "snd (extractTextFromPDF (onePagePdf (lit ''Hello PDF'')) plainDecoder (Some ?buf)) = Inr ?r"
    by (simp add: extract_parses onePagePdf_def one_page_text)
  have h5: "getAgent (Some (mastraWith silentAgent)) (lit ''pdfSummarizationAgent'') = Inr (Some silentAgent)"
    by simp
  have h6: "generate silentAgent (summaryRequest (extraction.extractedText ?r)) = Inr None"
    by (simp add: silentAgent_def)
  have h7: "(None :: ustring option) = None \<or> (None :: ustring option) = Some []" by simp
  from missing_summary_gets_placeholder
    [where fetch = "okFetch ?buf" and url = "lit ''https://example.com/a.pdf''",
      OF h1 h2 h3 h4 h5 h6 h7]
  have "pdfFetcherTool (okFetch ?buf) (onePagePdf (lit ''Hello PDF'')) plainDecoder
          (lit ''https://example.com/a.pdf'') (Some (mastraWith silentAgent))
        = Inr \<lparr>summary = lit ''Summary could not be generated'', fileSize = 4, pagesCount = 1,
               characterCount = 9\<rparr>"
    by (simp add: lit_def)
  with h6 show ?thesis by blast
qed

section \<open>The tool of the copy at src/mastra/tools\<close>

text \<open>
  The properties of the tool that do not depend on the parser hold for the copy that calls
  the line-by-line parser as well: it always returns, \<open>questionCount\<close> is the length of
  \<open>questions\<close>, a request holds the first 4000 code units of the text, and an exception
  of the \<open>try\<close> block gives the empty result.
\<close>

lemma tool_byLine_returns:
  "\<exists>r. snd (generateQuestionsFromTextTool_byLine ctx mastra) = Inr r"
  by (simp add: generateQuestionsFromTextTool_byLine_def Let_def split: prod.splits sum.splits)

lemma executeTry_byLine_count:
  assumes "executeTry_byLine text k mastra = (sent, Inr r)"
  shows "questionCount r = length (questions r)
         \<and> (\<not> success r \<longrightarrow> questions r = [] \<and> questionCount r = 0)"
  using assms
  by (auto simp: executeTry_byLine_def Let_def noQuestions_def
      split: sum.splits option.splits if_splits)

lemma tool_byLine_count:
  assumes "snd (generateQuestionsFromTextTool_byLine ctx mastra) = Inr r"
  shows "questionCount r = length (questions r)
         \<and> (\<not> success r \<longrightarrow> questions r = [] \<and> questionCount r = 0)"
  using assms executeTry_byLine_count [of "tool_context.extractedText ctx"
      "case maxQuestions ctx of None \<Rightarrow> 10 | Some n \<Rightarrow> n" mastra]
  by (auto simp: generateQuestionsFromTextTool_byLine_def Let_def noQuestions_def
      split: if_splits prod.splits sum.splits)

lemma executeTry_byLine_sent:
  "request \<in> set (fst (executeTry_byLine text k mastra)) \<Longrightarrow> request = questionRequest text k"
  by (auto simp: executeTry_byLine_def Let_def split: sum.splits option.splits if_splits)

lemma tool_byLine_sent:
  assumes "request \<in> set (fst (generateQuestionsFromTextTool_byLine ctx mastra))"
  shows "request =
           [\<lparr>role = lit ''user'',
             content = questionPromptHeader (case maxQuestions ctx of None \<Rightarrow> 10 | Some n \<Rightarrow> n)
                       @ take 4000 (tool_context.extractedText ctx)\<rparr>]"
proof -
  from assms have "request = questionRequest (tool_context.extractedText ctx)
               (case maxQuestions ctx of None \<Rightarrow> 10 | Some n \<Rightarrow> n)"
    using executeTry_byLine_sent [of request "tool_context.extractedText ctx"
      "case maxQuestions ctx of None \<Rightarrow> 10 | Some n \<Rightarrow> n" mastra]
    by (auto simp: generateQuestionsFromTextTool_byLine_def Let_def
        split: if_splits prod.splits sum.splits)
  then show ?thesis by (simp add: questionRequest_def MAX_TEXT_LENGTH_def)
qed

lemma tool_byLine_catch:
  assumes "getAgent mastra (lit ''textQuestionAgent'') = Inl error
           \<or> getAgent mastra (lit ''textQuestionAgent'') = Inr None
           \<or> (\<exists>agent. getAgent mastra (lit ''textQuestionAgent'') = Inr (Some agent)
                \<and> (stream agent (questionRequest (tool_context.extractedText ctx)
                                   (case maxQuestions ctx of None \<Rightarrow> 10 | Some n \<Rightarrow> n)) = Inl error
                     \<or> (\<exists>ts. stream agent (questionRequest (tool_context.extractedText ctx)
                                   (case maxQuestions ctx of None \<Rightarrow> 10 | Some n \<Rightarrow> n)) = Inr ts
                          \<and> drain [] ts = Inl error)))"
  shows "snd (generateQuestionsFromTextTool_byLine ctx mastra)
           = Inr \<lparr>questions = [], success = False, questionCount = 0\<rparr>"
  using assms
  by (auto simp: generateQuestionsFromTextTool_byLine_def executeTry_byLine_def Let_def
      noQuestions_def)

lemma step_byLine_returns:
  "\<exists>r. snd (generateQuestionsFromSummaryStep_byLine summ mastra) = Inr r"
  by (simp add: generateQuestionsFromSummaryStep_byLine_def split: prod.splits sum.splits)

lemma step_byLine_catch:
  assumes "getAgent mastra (lit ''textQuestionAgent'') = Inl error
           \<or> getAgent mastra (lit ''textQuestionAgent'') = Inr None
           \<or> (\<exists>agent. getAgent mastra (lit ''textQuestionAgent'') = Inr (Some agent)
                \<and> (stream agent (questionRequest summ 10) = Inl error
                     \<or> (\<exists>ts. stream agent (questionRequest summ 10) = Inr ts
                          \<and> drain [] ts = Inl error)))"
  shows "snd (generateQuestionsFromSummaryStep_byLine summ mastra)
           = Inr \<lparr>questions = [], success = False\<rparr>"
proof -
  have "snd (generateQuestionsFromTextTool_byLine
               \<lparr>tool_context.extractedText = summ, maxQuestions = None\<rparr> mastra)
          = Inr \<lparr>questions = [], success = False, questionCount = 0\<rparr>"
    using assms by (intro tool_byLine_catch [where error = error]) simp
  then show ?thesis
    by (cases "summ = []")
       (auto simp: generateQuestionsFromSummaryStep_byLine_def split: prod.splits sum.splits)
qed

end
